theory Spec2Isabelle
  imports Main "HOL-Library.AList"
begin

section \<open>Python values\<close>

text \<open>
  The handlers of \<^verbatim>\<open>CeleryTracing\<close> receive keyword arguments whose values are
  ordinary Python data: \<^verbatim>\<open>None\<close>, booleans, integers, strings, lists, tuples and
  string-keyed dicts. A dict is an association list; the handlers only read it with
  \<^verbatim>\<open>.get\<close> and write one key.
\<close>

datatype pyval =
    VNone
  | VBool bool
  | VInt int
  | VStr string
  | VList "pyval list"
  | VTuple "pyval list"
  | VDict "(string \<times> pyval) list"

text \<open>
  The exceptions the code raises itself or provokes in the interpreter, and those the
  tracer raises from \<^verbatim>\<open>inject\<close> and \<^verbatim>\<open>extract\<close> (by the name of their class).
\<close>

datatype error =
    RuntimeError
  | KeyError
  | AttributeError
  | TypeError
  | IndexError
  | TracerError string

text \<open>Truthiness, as \<^verbatim>\<open>or\<close>, \<^verbatim>\<open>if x:\<close> and \<^verbatim>\<open>not\<close> test it.\<close>

fun truthy :: "pyval \<Rightarrow> bool" where
  "truthy VNone = False"
| "truthy (VBool b) = b"
| "truthy (VInt i) = (i \<noteq> 0)"
| "truthy (VStr s) = (s \<noteq> [])"
| "truthy (VList xs) = (xs \<noteq> [])"
| "truthy (VTuple xs) = (xs \<noteq> [])"
| "truthy (VDict kvs) = (kvs \<noteq> [])"

text \<open>
  \<^verbatim>\<open>x.get(key)\<close>: a dict answers with the value or \<^verbatim>\<open>None\<close>; no other value of
  this universe has a \<^verbatim>\<open>get\<close> attribute.
\<close>

fun py_get :: "pyval \<Rightarrow> string \<Rightarrow> error + pyval" where
  "py_get (VDict kvs) k = Inr (case map_of kvs k of None \<Rightarrow> VNone | Some v \<Rightarrow> v)"
| "py_get _ k = Inl AttributeError"

text \<open>\<^verbatim>\<open>kwargs.get(name, {})\<close> for a keyword that may be missing.\<close>

definition kw_or_empty :: "pyval option \<Rightarrow> pyval" where
  "kw_or_empty kw = (case kw of None \<Rightarrow> VDict [] | Some v \<Rightarrow> v)"

text \<open>\<^verbatim>\<open>kwargs.get(name)\<close>: \<^verbatim>\<open>None\<close> for a keyword that is missing.\<close>

definition kw_or_none :: "pyval option \<Rightarrow> pyval" where
  "kw_or_none kw = (case kw of None \<Rightarrow> VNone | Some v \<Rightarrow> v)"

text \<open>
  Dict keys must be hashable: lists and dicts are not, a tuple is when its members
  are. Python also identifies the keys \<^verbatim>\<open>True\<close> and \<^verbatim>\<open>1\<close> (and \<^verbatim>\<open>False\<close> and
  \<^verbatim>\<open>0\<close>), which \<open>key_of\<close> does before a key is stored or looked up.
\<close>

fun hashable :: "pyval \<Rightarrow> bool" where
  "hashable (VList xs) = False"
| "hashable (VDict kvs) = False"
| "hashable (VTuple xs) = list_all hashable xs"
| "hashable _ = True"

fun key_of :: "pyval \<Rightarrow> pyval" where
  "key_of (VBool b) = VInt (if b then 1 else 0)"
| "key_of (VTuple xs) = VTuple (map key_of xs)"
| "key_of v = v"

text \<open>
  \<^verbatim>\<open>str(x)\<close>, which \<^verbatim>\<open>'{}'.format(x)\<close> and \<^verbatim>\<open>text_type(x)\<close> produce. Inside a
  container Python prints \<^verbatim>\<open>repr\<close>; the rendering of a nested string in single quotes
  is Python's for strings without quotes, backslashes or control characters.
\<close>

fun str_of_nat :: "nat \<Rightarrow> string" where
  "str_of_nat n =
     (if n < 10 then [char_of (48 + n)]
      else str_of_nat (n div 10) @ [char_of (48 + n mod 10)])"

definition str_of_int :: "int \<Rightarrow> string" where
  "str_of_int i = (if i < 0 then CHR ''-'' # str_of_nat (nat (- i)) else str_of_nat (nat i))"

fun join_with :: "string \<Rightarrow> string list \<Rightarrow> string" where
  "join_with sep [] = []"
| "join_with sep [x] = x"
| "join_with sep (x # y # ys) = x @ sep @ join_with sep (y # ys)"

fun py_repr :: "pyval \<Rightarrow> string" where
  "py_repr VNone = ''None''"
| "py_repr (VBool b) = (if b then ''True'' else ''False'')"
| "py_repr (VInt i) = str_of_int i"
| "py_repr (VStr s) = [CHR 0x27] @ s @ [CHR 0x27]"
| "py_repr (VList xs) = ''['' @ join_with '', '' (map py_repr xs) @ '']''"
| "py_repr (VTuple [x]) = ''('' @ py_repr x @ '',)''"
| "py_repr (VTuple xs) = ''('' @ join_with '', '' (map py_repr xs) @ '')''"
| "py_repr (VDict kvs) =
     ''{'' @ join_with '', ''
        (map (\<lambda>(k, v). [CHR 0x27] @ k @ [CHR 0x27] @ '': '' @ py_repr v) kvs) @ ''}''"

fun py_str :: "pyval \<Rightarrow> string" where
  "py_str (VStr s) = s"
| "py_str v = py_repr v"

section \<open>Spans, the tracer and task objects\<close>

text \<open>
  A span object is known by its identity, a number: its index in the tracer's list of
  spans. A span context is either the context of a span of this process or one that the
  tracer extracted from a propagation payload.
\<close>

datatype span_context = ContextOf nat | Remote pyval

text \<open>An exception object, by what the handlers read of it.\<close>

record exc_obj =
  exc_message :: string
  exc_class :: string

text \<open>
  A traceback value: a traceback object (held as the lines \<^verbatim>\<open>traceback.format_tb\<close>
  renders for it), an already formatted string, or a list.
\<close>

datatype tb_val = TbObject "string list" | TbString string | TbList "string list"

datatype log_val =
    LStr string
  | LExc "exc_obj option"
  | LTraceback tb_val

record span =
  sp_name :: string
  sp_parent :: "span_context option"
  sp_tags :: "(string \<times> pyval) list"
  sp_finished :: bool
  sp_logs :: "(string \<times> log_val) list list"

text \<open>
  A task object: its name, its \<^verbatim>\<open>app\<close> attribute when it has one (the identity of the
  owning application), the attributes of its \<^verbatim>\<open>request\<close>, and the side-table
  \<^verbatim>\<open>_ct_spans\<close> when that attribute has been set (keys to span identities).
\<close>

record task =
  t_name :: string
  t_app :: "nat option"
  t_request :: "(string \<times> pyval) list"
  t_spans :: "(pyval \<times> nat) list option"

text \<open>
  Everything the handlers mutate: the tracer's spans and its stack of active scopes
  (the head is the active scope; a scope is known by its span), the task objects by
  reference, and the warnings logged.
\<close>

record world =
  w_spans :: "span list"
  w_active :: "nat list"
  w_tasks :: "(nat \<times> task) list"
  w_warnings :: "(nat \<times> nat) list"

section \<open>Span lookup\<close>

text \<open>
  \<^verbatim>\<open>
  @staticmethod
  def _get_span(task, task_id, remove=False):
      if hasattr(task, spans_attr):
          spans = getattr(task, spans_attr)
          if remove:
              return spans.pop(task_id)
          return spans[task_id]
  \<close>
  The result is the span found (\<open>None\<close> is Python's \<^verbatim>\<open>None\<close>, returned when the
  function falls off its end) and the task object, whose side-table \<^verbatim>\<open>pop\<close> mutates.
\<close>

definition get_span :: "task \<Rightarrow> pyval \<Rightarrow> bool \<Rightarrow> error + (nat option \<times> task)" where
  "get_span t task_id remove =
     (case t_spans t of
        None \<Rightarrow> Inr (None, t)
      | Some spans \<Rightarrow>
          if \<not> hashable task_id then Inl TypeError
          else (case map_of spans (key_of task_id) of
                  None \<Rightarrow> Inl KeyError
                | Some sp \<Rightarrow>
                    if remove
                    then Inr (Some sp, t\<lparr>t_spans := Some (AList.delete (key_of task_id) spans)\<rparr>)
                    else Inr (Some sp, t)))"

section \<open>The tracer\<close>

text \<open>
  The tracer is an external collaborator (OpenTracing), used through
  \<^verbatim>\<open>start_active_span\<close>, \<^verbatim>\<open>scope_manager.active\<close>, \<^verbatim>\<open>scope.close\<close>,
  \<^verbatim>\<open>span.finish\<close>, \<^verbatim>\<open>span.set_tag\<close>, \<^verbatim>\<open>span.log_kv\<close>, \<^verbatim>\<open>inject\<close> and
  \<^verbatim>\<open>extract\<close>. Its state is the list of spans and the stack of active scopes of the
  world; with no scope active, \<^verbatim>\<open>scope_manager.active\<close> is \<^verbatim>\<open>None\<close>.
\<close>

text \<open>
  Modelled from the spec: \<^verbatim>\<open>start_active_span(name, child_of, ignore_active_span,
  tags)\<close> of the tracer, which is not part of the sources. It creates the span and makes
  its scope the active one; the parent is \<^verbatim>\<open>child_of\<close> when given, else the active span
  unless \<^verbatim>\<open>ignore_active_span\<close> is set.
\<close>

definition start_active_span ::
  "string \<Rightarrow> span_context option \<Rightarrow> bool \<Rightarrow> (string \<times> pyval) list \<Rightarrow> world \<Rightarrow> nat \<times> world" where
  "start_active_span name child_of ignore_active_span tags w =
     (let sid = length (w_spans w);
          parent =
            (case child_of of
               Some c \<Rightarrow> Some c
             | None \<Rightarrow>
                 if ignore_active_span then None
                 else (case w_active w of [] \<Rightarrow> None | a # _ \<Rightarrow> Some (ContextOf a)))
      in (sid,
          w\<lparr>w_spans := w_spans w @
                [\<lparr>sp_name = name, sp_parent = parent, sp_tags = tags,
                  sp_finished = False, sp_logs = []\<rparr>],
            w_active := sid # w_active w\<rparr>))"

text \<open>A change to the span with identity \<open>sid\<close>.\<close>

definition update_span :: "nat \<Rightarrow> (span \<Rightarrow> span) \<Rightarrow> world \<Rightarrow> world" where
  "update_span sid f w = w\<lparr>w_spans := (w_spans w)[sid := f (w_spans w ! sid)]\<rparr>"

text \<open>
  Modelled from the spec: \<^verbatim>\<open>span.set_tag(key, value)\<close> of the tracer's span; the tags
  are a dict.
\<close>

definition set_tag :: "string \<Rightarrow> pyval \<Rightarrow> span \<Rightarrow> span" where
  "set_tag k v sp = sp\<lparr>sp_tags := AList.update k v (sp_tags sp)\<rparr>"

text \<open>
  Modelled from the spec: \<^verbatim>\<open>span.log_kv(mapping)\<close> of the tracer's span, which records
  one structured event.
\<close>

definition log_kv :: "(string \<times> log_val) list \<Rightarrow> span \<Rightarrow> span" where
  "log_kv kvs sp = sp\<lparr>sp_logs := sp_logs sp @ [kvs]\<rparr>"

text \<open>Modelled from the spec: \<^verbatim>\<open>span.finish()\<close> of the tracer's span.\<close>

definition span_finish :: "nat \<Rightarrow> world \<Rightarrow> world" where
  "span_finish sid w = update_span sid (\<lambda>sp. sp\<lparr>sp_finished := True\<rparr>) w"

text \<open>
  Modelled from the spec: \<^verbatim>\<open>close()\<close> of the active scope, which finishes its span and
  restores the scope that was active before.
\<close>

definition scope_close :: "world \<Rightarrow> world" where
  "scope_close w =
     (case w_active w of
        [] \<Rightarrow> w
      | a # rest \<Rightarrow> (span_finish a w)\<lparr>w_active := rest\<rparr>)"

text \<open>
  Modelled from the spec: the tag names \<^verbatim>\<open>COMPONENT\<close>,
  \<^verbatim>\<open>MESSAGE_BUS_DESTINATION\<close> and \<^verbatim>\<open>ERROR\<close> of \<^verbatim>\<open>opentracing.ext.tags\<close>, a module
  the sources import, with the values OpenTracing gives them.
\<close>

definition COMPONENT :: string where
  "COMPONENT = ''component''"

definition MESSAGE_BUS_DESTINATION :: string where
  "MESSAGE_BUS_DESTINATION = ''message_bus.destination''"

definition ERROR :: string where
  "ERROR = ''error''"

text \<open>
  Modelled from the spec: \<^verbatim>\<open>traceback.format_tb\<close> of the standard library renders a
  traceback object as a list of lines; it reads \<^verbatim>\<open>tb.tb_frame\<close>, which neither a
  string nor a list has.
\<close>

fun format_tb :: "tb_val \<Rightarrow> error + string list" where
  "format_tb (TbObject ls) = Inr ls"
| "format_tb _ = Inl AttributeError"

section \<open>The instrumentation instance\<close>

text \<open>
  \<^verbatim>\<open>self\<close>: its identity, \<^verbatim>\<open>_propagate\<close>, \<^verbatim>\<open>_span_tags\<close>, the task registry
  \<^verbatim>\<open>self.tasks\<close> (task name to task object), and the tracer's \<^verbatim>\<open>extract\<close> and
  \<^verbatim>\<open>inject\<close> for the text-map format, which are left to the tracer in use: each
  may raise an exception of its own (\<open>Inl\<close> of the class name), \<^verbatim>\<open>extract\<close> answers
  with a context or \<^verbatim>\<open>None\<close>, and \<^verbatim>\<open>inject\<close> with the carrier it has filled.
\<close>

record celery_tracing =
  self_id :: nat
  propagate :: bool
  span_tags :: "(string \<times> pyval) list"
  tasks :: "(string \<times> nat) list"
  tracer_extract :: "pyval \<Rightarrow> string + span_context option"
  tracer_inject :: "span_context \<Rightarrow> pyval \<Rightarrow> string + pyval"

definition context_headers :: string where
  "context_headers = ''_celery_opentracing_context''"

text \<open>
  \<^verbatim>\<open>
  def _is_local(self, item):
      app = None
      if hasattr(item, 'app'):
          app = item.app
      is_local = app is self
      return is_local
  \<close>
  The item is a task object or \<^verbatim>\<open>None\<close>.
\<close>

definition is_local :: "celery_tracing \<Rightarrow> task option \<Rightarrow> bool" where
  "is_local self item =
     (let app = (case item of None \<Rightarrow> None | Some t \<Rightarrow> t_app t)
      in app = Some (self_id self))"

definition task_at :: "world \<Rightarrow> nat option \<Rightarrow> task option" where
  "task_at w ref = (case ref of None \<Rightarrow> None | Some r \<Rightarrow> map_of (w_tasks w) r)"

definition put_task :: "nat \<Rightarrow> task \<Rightarrow> world \<Rightarrow> world" where
  "put_task r t w = w\<lparr>w_tasks := AList.update r t (w_tasks w)\<rparr>"

section \<open>Tag extraction\<close>

text \<open>
  \<^verbatim>\<open>
  @staticmethod
  def _set_span_tags(span, headers):
      span.set_tag(ext_tags.COMPONENT, 'celery')
      tags = ('countdown', 'delivery_info', 'eta', 'expires', 'group', 'hostname',
              'origin', 'retries', 'timelimit')
      for tag in tags:
          val = headers.get(tag)
          if val not in (None, '', [None, None], (None, None)):
              if tag == 'delivery_info':
                  for subtag in ('exchange', 'priority', 'redelivered', 'routing_key', 'queue'):
                      subval = val.get(subtag)
                      if subval not in (None, ''):
                          span.set_tag('celery.delivery.{}'.format(subtag), subval)
                          if subtag in ('exchange', 'routing_key', 'queue'):
                              span.set_tag(ext_tags.MESSAGE_BUS_DESTINATION, subval)
                  continue
              if tag == 'hostname':
                  tag = 'worker.hostname'
              if tag == 'origin':
                  tag = 'task.origin'
              span.set_tag('celery.{}'.format(tag), val)
  \<close>
  A raise inside a loop leaves the tags set so far on the span, so each function
  returns the span together with the error, if any.
\<close>

fun delivery_tags :: "string list \<Rightarrow> pyval \<Rightarrow> span \<Rightarrow> error option \<times> span" where
  "delivery_tags [] val sp = (None, sp)"
| "delivery_tags (subtag # rest) val sp =
     (case py_get val subtag of
        Inl e \<Rightarrow> (Some e, sp)
      | Inr subval \<Rightarrow>
          if subval \<notin> set [VNone, VStr '''']
          then
            (let sp1 = set_tag (''celery.delivery.'' @ subtag) subval sp;
                 sp2 = (if subtag \<in> set [''exchange'', ''routing_key'', ''queue'']
                        then set_tag MESSAGE_BUS_DESTINATION subval sp1 else sp1)
             in delivery_tags rest val sp2)
          else delivery_tags rest val sp)"

definition renamed :: "string \<Rightarrow> string" where
  "renamed tag =
     (let tag1 = (if tag = ''hostname'' then ''worker.hostname'' else tag)
      in if tag1 = ''origin'' then ''task.origin'' else tag1)"

fun span_tags_loop :: "string list \<Rightarrow> pyval \<Rightarrow> span \<Rightarrow> error option \<times> span" where
  "span_tags_loop [] headers sp = (None, sp)"
| "span_tags_loop (tag # rest) headers sp =
     (case py_get headers tag of
        Inl e \<Rightarrow> (Some e, sp)
      | Inr val \<Rightarrow>
          if val \<notin> set [VNone, VStr '''', VList [VNone, VNone], VTuple [VNone, VNone]]
          then
            (if tag = ''delivery_info''
             then
               (case delivery_tags
                       [''exchange'', ''priority'', ''redelivered'', ''routing_key'', ''queue'']
                       val sp of
                  (Some e, sp1) \<Rightarrow> (Some e, sp1)
                | (None, sp1) \<Rightarrow> span_tags_loop rest headers sp1)
             else span_tags_loop rest headers (set_tag (''celery.'' @ renamed tag) val sp))
          else span_tags_loop rest headers sp)"

definition set_span_tags :: "span \<Rightarrow> pyval \<Rightarrow> error option \<times> span" where
  "set_span_tags sp headers =
     span_tags_loop
       [''countdown'', ''delivery_info'', ''eta'', ''expires'', ''group'', ''hostname'',
        ''origin'', ''retries'', ''timelimit'']
       headers (set_tag COMPONENT (VStr ''celery'') sp)"

text \<open>Tag extraction on the span with identity \<open>sid\<close> of the tracer.\<close>

definition tag_span :: "nat \<Rightarrow> pyval \<Rightarrow> world \<Rightarrow> error option \<times> world" where
  "tag_span sid headers w =
     (case set_span_tags (w_spans w ! sid) headers of
        (e, sp) \<Rightarrow> (e, w\<lparr>w_spans := (w_spans w)[sid := sp]\<rparr>))"

section \<open>Lifecycle events\<close>

text \<open>
  The keyword arguments of a publish signal (the sender is the task's name) and of a
  run signal (the sender is the task object). \<open>None\<close> is a keyword that was not
  passed.
\<close>

record publish_kwargs =
  pk_sender :: "string option"
  pk_headers :: "pyval option"
  pk_body :: "pyval option"

record exc_info =
  ei_exception :: "exc_obj option"
  ei_traceback :: "tb_val option"

record run_kwargs =
  rk_task :: "nat option"
  rk_sender :: "nat option"
  rk_task_id :: "pyval option"
  rk_exception :: "exc_obj option"
  rk_einfo :: "exc_info option"
  rk_traceback :: "tb_val option"
  rk_request :: "pyval option"
  rk_reason :: "pyval option"

text \<open>\<^verbatim>\<open>self.tasks.get(kwargs.get('sender'))\<close>\<close>

definition published_task :: "celery_tracing \<Rightarrow> publish_kwargs \<Rightarrow> nat option" where
  "published_task self kw =
     (case pk_sender kw of None \<Rightarrow> None | Some name \<Rightarrow> map_of (tasks self) name)"

text \<open>
  \<^verbatim>\<open>kwargs.get('headers', {}).get('id') or kwargs.get('body', {}).get('id')\<close>:
  the body is only asked when the headers' answer is falsy.
\<close>

definition publish_task_id :: "publish_kwargs \<Rightarrow> error + pyval" where
  "publish_task_id kw =
     (case py_get (kw_or_empty (pk_headers kw)) ''id'' of
        Inl e \<Rightarrow> Inl e
      | Inr h \<Rightarrow> if truthy h then Inr h else py_get (kw_or_empty (pk_body kw)) ''id'')"

text \<open>
  \<^verbatim>\<open>
  body = kwargs.get('body')
  if isinstance(body, tuple):  # celery 4.0
      body = body[2]
  \<close>
\<close>

definition body_metadata :: "pyval option \<Rightarrow> error + pyval" where
  "body_metadata body =
     (case kw_or_none body of
        VTuple xs \<Rightarrow> if 2 < length xs then Inr (xs ! 2) else Inl IndexError
      | v \<Rightarrow> Inr v)"

text \<open>
  \<^verbatim>\<open>
  headers = kwargs.get('headers')
  if headers is not None:
      self._set_span_tags(span, headers)
      if self._propagate:
          headers[context_headers] = {}
          self._tracer.inject(span.context, opentracing.Format.TEXT_MAP,
                              headers[context_headers])
  \<close>
  The headers dict is the caller's object: the result carries it as mutated.
\<close>

definition publish_headers ::
  "celery_tracing \<Rightarrow> nat \<Rightarrow> pyval option \<Rightarrow> world \<Rightarrow> error option \<times> world \<times> pyval option" where
  "publish_headers self sid kw_headers w =
     (let headers = kw_or_none kw_headers in
      if headers = VNone then (None, w, kw_headers)
      else
        (case tag_span sid headers w of
           (Some e, w1) \<Rightarrow> (Some e, w1, kw_headers)
         | (None, w1) \<Rightarrow>
             if \<not> propagate self then (None, w1, kw_headers)
             else
               (case headers of
                  VDict hs \<Rightarrow>
                    (case tracer_inject self (ContextOf sid) (VDict []) of
                       Inl e \<Rightarrow>
                         (Some (TracerError e), w1,
                          Some (VDict (AList.update context_headers (VDict []) hs)))
                     | Inr carrier \<Rightarrow>
                         (None, w1, Some (VDict (AList.update context_headers carrier hs))))
                | _ \<Rightarrow> (Some TypeError, w1, kw_headers))))"

text \<open>
  \<^verbatim>\<open>
  if not hasattr(task, spans_attr):
      setattr(task, spans_attr, {})
  getattr(task, spans_attr)[key] = span
  \<close>
  The attribute is set before the assignment, which raises on an unhashable key.
\<close>

definition store_span :: "pyval \<Rightarrow> nat \<Rightarrow> task \<Rightarrow> error option \<times> task" where
  "store_span key sid t =
     (let spans = (case t_spans t of None \<Rightarrow> [] | Some s \<Rightarrow> s) in
      if \<not> hashable key then (Some TypeError, t\<lparr>t_spans := Some spans\<rparr>)
      else (None, t\<lparr>t_spans := Some (AList.update (key_of key) sid spans)\<rparr>))"

text \<open>
  \<^verbatim>\<open>
  def _prepublish(self, *args, **kwargs):
      task = self.tasks.get(kwargs.get('sender'))
      if not self._is_local(task):
          return

      scope = self._tracer.start_active_span('publish {0.name}'.format(task),
                                             tags=copy(self._span_tags))
      span = scope.span

      task_id = kwargs.get('headers', {}).get('id') or kwargs.get('body', {}).get('id')
      if task_id is None:
          raise RuntimeError('task_id is never expected to be None.')
      span.set_tag('celery.task.id', task_id)

      self._set_span_tags(span, task.request)

      body = kwargs.get('body')
      if isinstance(body, tuple):  # celery 4.0
          body = body[2]
      self._set_span_tags(span, body)

      headers = kwargs.get('headers')
      if headers is not None:
          ...
      if not hasattr(task, spans_attr):
          setattr(task, spans_attr, {})
      getattr(task, spans_attr)['publish:{}'.format(task_id)] = span
  \<close>
  A handler answers with the exception raised, if any, and the world as the call left
  it; \<open>prepublish\<close> also with the headers as it left them.
\<close>

definition prepublish_tags ::
  "task \<Rightarrow> publish_kwargs \<Rightarrow> nat \<Rightarrow> pyval \<Rightarrow> world \<Rightarrow> error option \<times> world" where
  "prepublish_tags t kw sid task_id w =
     (let w1 = update_span sid (set_tag ''celery.task.id'' task_id) w in
      case tag_span sid (VDict (t_request t)) w1 of
        (Some e, w2) \<Rightarrow> (Some e, w2)
      | (None, w2) \<Rightarrow>
          (case body_metadata (pk_body kw) of
             Inl e \<Rightarrow> (Some e, w2)
           | Inr body \<Rightarrow> tag_span sid body w2))"

definition prepublish ::
  "celery_tracing \<Rightarrow> publish_kwargs \<Rightarrow> world \<Rightarrow> error option \<times> world \<times> pyval option" where
  "prepublish self kw w =
     (let ref = published_task self kw; item = task_at w ref in
      if \<not> is_local self item then (None, w, pk_headers kw)
      else
        (case (ref, item) of
           (Some r, Some t) \<Rightarrow>
             (case start_active_span (''publish '' @ t_name t) None False (span_tags self) w of
                (sid, w1) \<Rightarrow>
                  (case publish_task_id kw of
                     Inl e \<Rightarrow> (Some e, w1, pk_headers kw)
                   | Inr task_id \<Rightarrow>
                       if task_id = VNone then (Some RuntimeError, w1, pk_headers kw)
                       else
                         (case prepublish_tags t kw sid task_id w1 of
                            (Some e, w2) \<Rightarrow> (Some e, w2, pk_headers kw)
                          | (None, w2) \<Rightarrow>
                              (case publish_headers self sid (pk_headers kw) w2 of
                                 (Some e, w3, hs) \<Rightarrow> (Some e, w3, hs)
                               | (None, w3, hs) \<Rightarrow>
                                   (case store_span (VStr (''publish:'' @ py_str task_id)) sid t of
                                      (e, t1) \<Rightarrow> (e, put_task r t1 w3, hs))))))
         | _ \<Rightarrow> (None, w, pk_headers kw)))"

text \<open>
  \<^verbatim>\<open>
  active_scope = self._tracer.scope_manager.active
  if active_scope.span is span:
      active_scope.close()
  else:
      span.finish()
      log.warn('SCOPE LEAK! %s != %s', active_scope.span, span)
  \<close>
  The tail that \<^verbatim>\<open>_postpublish\<close> and \<^verbatim>\<open>_finish_span\<close> share. With no active scope
  \<^verbatim>\<open>active_scope\<close> is \<^verbatim>\<open>None\<close>, which has no attribute \<^verbatim>\<open>span\<close>; so has a
  \<^verbatim>\<open>None\<close> span no \<^verbatim>\<open>finish\<close>.
\<close>

definition close_or_finish :: "nat option \<Rightarrow> world \<Rightarrow> error option \<times> world" where
  "close_or_finish sp w =
     (case w_active w of
        [] \<Rightarrow> (Some AttributeError, w)
      | a # rest \<Rightarrow>
          if sp = Some a then (None, scope_close w)
          else
            (case sp of
               None \<Rightarrow> (Some AttributeError, w)
             | Some s \<Rightarrow>
                 (None, (span_finish s w)\<lparr>w_warnings := w_warnings w @ [(a, s)]\<rparr>)))"

text \<open>
  \<^verbatim>\<open>
  def _postpublish(self, *args, **kwargs):
      task = self.tasks.get(kwargs.get('sender'))
      if not self._is_local(task):
          return

      task_id = kwargs.get('headers', {}).get('id') or kwargs.get('body', {}).get('id')
      span = self._get_span(task, 'publish:{}'.format(task_id), remove=True)
      active_scope = self._tracer.scope_manager.active
      ...
  \<close>
\<close>

definition postpublish :: "celery_tracing \<Rightarrow> publish_kwargs \<Rightarrow> world \<Rightarrow> error option \<times> world" where
  "postpublish self kw w =
     (let ref = published_task self kw; item = task_at w ref in
      if \<not> is_local self item then (None, w)
      else
        (case (ref, item) of
           (Some r, Some t) \<Rightarrow>
             (case publish_task_id kw of
                Inl e \<Rightarrow> (Some e, w)
              | Inr task_id \<Rightarrow>
                  (case get_span t (VStr (''publish:'' @ py_str task_id)) True of
                     Inl e \<Rightarrow> (Some e, w)
                   | Inr (sp, t1) \<Rightarrow> close_or_finish sp (put_task r t1 w)))
         | _ \<Rightarrow> (None, w)))"

text \<open>
  \<^verbatim>\<open>
  context = getattr(task.request, context_headers, None) or \
            task.request.headers.get(context_headers)
  \<close>
  over the attributes of the request.
\<close>

definition request_context :: "(string \<times> pyval) list \<Rightarrow> error + pyval" where
  "request_context rq =
     (let direct = (case map_of rq context_headers of None \<Rightarrow> VNone | Some v \<Rightarrow> v) in
      if truthy direct then Inr direct
      else
        (case map_of rq ''headers'' of
           None \<Rightarrow> Inl AttributeError
         | Some hs \<Rightarrow> py_get hs context_headers))"

text \<open>
  \<^verbatim>\<open>
  parent = None
  if self._propagate:
      context = ...
      if context:
          parent = self._tracer.extract(opentracing.Format.TEXT_MAP, context)
  \<close>
\<close>

definition run_parent :: "celery_tracing \<Rightarrow> task \<Rightarrow> error + span_context option" where
  "run_parent self t =
     (if propagate self
      then
        (case request_context (t_request t) of
           Inl e \<Rightarrow> Inl e
         | Inr context \<Rightarrow>
             if truthy context
             then (case tracer_extract self context of
                     Inl e \<Rightarrow> Inl (TracerError e)
                   | Inr parent \<Rightarrow> Inr parent)
             else Inr None)
      else Inr None)"

text \<open>
  \<^verbatim>\<open>task_id = kwargs.get('task_id', request.correlation_id)\<close>: the default is
  evaluated whether or not the keyword is there.
\<close>

definition run_task_id :: "run_kwargs \<Rightarrow> task \<Rightarrow> error + pyval" where
  "run_task_id kw t =
     (case map_of (t_request t) ''correlation_id'' of
        None \<Rightarrow> Inl AttributeError
      | Some c \<Rightarrow> Inr (case rk_task_id kw of None \<Rightarrow> c | Some v \<Rightarrow> v))"

text \<open>
  \<^verbatim>\<open>
  def _start_span(self, *args, **kwargs):
      task = kwargs.get('task', kwargs.get('sender'))
      if not self._is_local(task):
          return
      parent = None
      if self._propagate:
          ...
      span = self._tracer.start_active_span(task.name, child_of=parent,
                                            ignore_active_span=True,
                                            tags=copy(self._span_tags)).span

      request = task.request
      task_id = kwargs.get('task_id', request.correlation_id)
      if task_id is None:
          raise RuntimeError('task_id is never expected to be None.')

      span.set_tag('celery.task.id', task_id)
      self._set_span_tags(span, task.request)

      if not hasattr(task, spans_attr):
          setattr(task, spans_attr, {})
      getattr(task, spans_attr)[task_id] = span
  \<close>
\<close>

definition run_task :: "run_kwargs \<Rightarrow> nat option" where
  "run_task kw = (case rk_task kw of Some r \<Rightarrow> Some r | None \<Rightarrow> rk_sender kw)"

definition start_span :: "celery_tracing \<Rightarrow> run_kwargs \<Rightarrow> world \<Rightarrow> error option \<times> world" where
  "start_span self kw w =
     (let ref = run_task kw; item = task_at w ref in
      if \<not> is_local self item then (None, w)
      else
        (case (ref, item) of
           (Some r, Some t) \<Rightarrow>
             (case run_parent self t of
                Inl e \<Rightarrow> (Some e, w)
              | Inr parent \<Rightarrow>
                  (case start_active_span (t_name t) parent True (span_tags self) w of
                     (sid, w1) \<Rightarrow>
                       (case run_task_id kw t of
                          Inl e \<Rightarrow> (Some e, w1)
                        | Inr task_id \<Rightarrow>
                            if task_id = VNone then (Some RuntimeError, w1)
                            else
                              (case tag_span sid (VDict (t_request t))
                                      (update_span sid (set_tag ''celery.task.id'' task_id) w1) of
                                 (Some e, w2) \<Rightarrow> (Some e, w2)
                               | (None, w2) \<Rightarrow>
                                   (case store_span task_id sid t of
                                      (e, t1) \<Rightarrow> (e, put_task r t1 w2))))))
         | _ \<Rightarrow> (None, w)))"

text \<open>
  \<^verbatim>\<open>
  def _finish_span(self, *args, **kwargs):
      task = kwargs.get('sender')
      if not self._is_local(task):
          return

      span = self._get_span(task, kwargs.get('task_id'), remove=True)
      active_scope = self._tracer.scope_manager.active
      ...
  \<close>
\<close>

definition finish_span :: "celery_tracing \<Rightarrow> run_kwargs \<Rightarrow> world \<Rightarrow> error option \<times> world" where
  "finish_span self kw w =
     (let ref = rk_sender kw; item = task_at w ref in
      if \<not> is_local self item then (None, w)
      else
        (case (ref, item) of
           (Some r, Some t) \<Rightarrow>
             (case get_span t (kw_or_none (rk_task_id kw)) True of
                Inl e \<Rightarrow> (Some e, w)
              | Inr (sp, t1) \<Rightarrow> close_or_finish sp (put_task r t1 w))
         | _ \<Rightarrow> (None, w)))"

text \<open>
  \<^verbatim>\<open>
  logged_error = {'event': ext_tags.ERROR}
  logged_error.update({'message': str(exc),
                       'error.object': exc,
                       'error.kind': exc.__class__.__name__})
  \<close>
  \<^verbatim>\<open>_tag_retry\<close> does this also for an exception that is \<^verbatim>\<open>None\<close>.
\<close>

definition logged_error :: "exc_obj option \<Rightarrow> (string \<times> log_val) list" where
  "logged_error exc =
     [(''event'', LStr ERROR),
      (''message'', LStr (case exc of None \<Rightarrow> ''None'' | Some x \<Rightarrow> exc_message x)),
      (''error.object'', LExc exc),
      (''error.kind'', LStr (case exc of None \<Rightarrow> ''NoneType'' | Some x \<Rightarrow> exc_class x))]"

text \<open>
  \<^verbatim>\<open>
  def _tag_error(self, *args, **kwargs):
      task = kwargs.get('sender')
      if not self._is_local(task):
          return
      span = self._get_span(task, kwargs.get('task_id'))
      span.set_tag(ext_tags.ERROR, True)

      exc = kwargs.get('exception')
      einfo = kwargs.get('einfo')
      if exc is None and einfo is not None:
          exc = einfo.exception

      logged_error = {'event': ext_tags.ERROR}
      if exc is not None:
          logged_error.update(...)

          tb = kwargs.get('traceback')
          if tb is None:
              if einfo is not None:
                  tb = einfo.traceback
          if tb is not None:
              logged_error['stack'] = text_type('').join(traceback.format_tb(tb))

      span.log_kv(logged_error)
  \<close>
\<close>

definition error_log :: "run_kwargs \<Rightarrow> error + (string \<times> log_val) list" where
  "error_log kw =
     (let einfo = rk_einfo kw;
          exc = (case rk_exception kw of
                   Some x \<Rightarrow> Some x
                 | None \<Rightarrow> (case einfo of None \<Rightarrow> None | Some ei \<Rightarrow> ei_exception ei))
      in case exc of
           None \<Rightarrow> Inr [(''event'', LStr ERROR)]
         | Some x \<Rightarrow>
             (let tb = (case rk_traceback kw of
                          Some tb \<Rightarrow> Some tb
                        | None \<Rightarrow> (case einfo of None \<Rightarrow> None | Some ei \<Rightarrow> ei_traceback ei))
              in case tb of
                   None \<Rightarrow> Inr (logged_error (Some x))
                 | Some tbv \<Rightarrow>
                     (case format_tb tbv of
                        Inl e \<Rightarrow> Inl e
                      | Inr ls \<Rightarrow> Inr (logged_error (Some x) @ [(''stack'', LStr (concat ls))]))))"

definition tag_error :: "celery_tracing \<Rightarrow> run_kwargs \<Rightarrow> world \<Rightarrow> error option \<times> world" where
  "tag_error self kw w =
     (let ref = rk_sender kw; item = task_at w ref in
      if \<not> is_local self item then (None, w)
      else
        (case item of
           Some t \<Rightarrow>
             (case get_span t (kw_or_none (rk_task_id kw)) False of
                Inl e \<Rightarrow> (Some e, w)
              | Inr (None, t1) \<Rightarrow> (Some AttributeError, w)
              | Inr (Some sid, t1) \<Rightarrow>
                  (let w1 = update_span sid (set_tag ERROR (VBool True)) w in
                   case error_log kw of
                     Inl e \<Rightarrow> (Some e, w1)
                   | Inr kvs \<Rightarrow> (None, update_span sid (log_kv kvs) w1)))
         | None \<Rightarrow> (None, w)))"

text \<open>
  \<^verbatim>\<open>
  def _tag_retry(self, *args, **kwargs):
      task = kwargs.get('sender')
      if not self._is_local(task):
          return
      span = self._get_span(task, kwargs.get('request', {}).get('id'))
      span.set_tag('celery.retry', True)
      span.set_tag('celery.retry.reason', text_type(kwargs.get('reason')))

      einfo = kwargs.get('einfo')
      if einfo is not None:
          exc = einfo.exception
          logged_error = {'event': ext_tags.ERROR}
          logged_error.update(...)

          tb = einfo.traceback
          if tb is not None:
              if isinstance(tb, list):
                  tb = text_type('').join(traceback.format_tb(tb))
              logged_error['stack'] = tb

          span.log_kv(logged_error)
  \<close>
\<close>

definition retry_log :: "exc_info \<Rightarrow> error + (string \<times> log_val) list" where
  "retry_log ei =
     (case ei_traceback ei of
        None \<Rightarrow> Inr (logged_error (ei_exception ei))
      | Some (TbList xs) \<Rightarrow>
          (case format_tb (TbList xs) of
             Inl e \<Rightarrow> Inl e
           | Inr ls \<Rightarrow> Inr (logged_error (ei_exception ei) @ [(''stack'', LStr (concat ls))]))
      | Some tb \<Rightarrow> Inr (logged_error (ei_exception ei) @ [(''stack'', LTraceback tb)]))"

definition tag_retry :: "celery_tracing \<Rightarrow> run_kwargs \<Rightarrow> world \<Rightarrow> error option \<times> world" where
  "tag_retry self kw w =
     (let ref = rk_sender kw; item = task_at w ref in
      if \<not> is_local self item then (None, w)
      else
        (case item of
           Some t \<Rightarrow>
             (case py_get (kw_or_empty (rk_request kw)) ''id'' of
                Inl e \<Rightarrow> (Some e, w)
              | Inr task_id \<Rightarrow>
                  (case get_span t task_id False of
                     Inl e \<Rightarrow> (Some e, w)
                   | Inr (None, t1) \<Rightarrow> (Some AttributeError, w)
                   | Inr (Some sid, t1) \<Rightarrow>
                       (let w1 = update_span sid
                                   (set_tag ''celery.retry.reason''
                                      (VStr (py_str (kw_or_none (rk_reason kw)))) \<circ>
                                    set_tag ''celery.retry'' (VBool True)) w
                        in case rk_einfo kw of
                             None \<Rightarrow> (None, w1)
                           | Some ei \<Rightarrow>
                               (case retry_log ei of
                                  Inl e \<Rightarrow> (Some e, w1)
                                | Inr kvs \<Rightarrow> (None, update_span sid (log_kv kvs) w1)))))
         | None \<Rightarrow> (None, w)))"

section \<open>Reading the result\<close>

text \<open>The value of a tag on a span, as \<^verbatim>\<open>set_tag\<close> left it.\<close>

definition tag_of :: "span \<Rightarrow> string \<Rightarrow> pyval option" where
  "tag_of sp k = map_of (sp_tags sp) k"

text \<open>
  The destination the delivery sub-loop leaves on a span whose destination tag was
  \<open>before\<close>: the loop visits exchange, routing key and queue in this order and each
  value that is neither \<^verbatim>\<open>None\<close> nor \<^verbatim>\<open>''\<close> overwrites the tag.
\<close>

definition destination_of :: "(string \<times> pyval) list \<Rightarrow> pyval option \<Rightarrow> pyval option" where
  "destination_of di before =
     (let q = (case map_of di ''queue'' of None \<Rightarrow> VNone | Some v \<Rightarrow> v);
          rk = (case map_of di ''routing_key'' of None \<Rightarrow> VNone | Some v \<Rightarrow> v);
          ex = (case map_of di ''exchange'' of None \<Rightarrow> VNone | Some v \<Rightarrow> v)
      in if q \<notin> set [VNone, VStr ''''] then Some q
         else if rk \<notin> set [VNone, VStr ''''] then Some rk
         else if ex \<notin> set [VNone, VStr ''''] then Some ex
         else before)"


text \<open>The side-table of a task, empty when the attribute is not set.\<close>

definition table_of :: "task \<Rightarrow> (pyval \<times> nat) list" where
  "table_of t = (case t_spans t of None \<Rightarrow> [] | Some spans \<Rightarrow> spans)"

text \<open>
  The same, for any list of sub-fields visited in order: only exchange, routing key and
  queue touch the destination tag.
\<close>

fun destination_after ::
  "string list \<Rightarrow> (string \<times> pyval) list \<Rightarrow> pyval option \<Rightarrow> pyval option" where
  "destination_after [] di before = before"
| "destination_after (subtag # rest) di before =
     destination_after rest di
       (let subval = (case map_of di subtag of None \<Rightarrow> VNone | Some v \<Rightarrow> v)
        in if subval \<notin> set [VNone, VStr ''''] \<and>
              subtag \<in> set [''exchange'', ''routing_key'', ''queue'']
           then Some subval else before)"

section \<open>A scenario\<close>

text \<open>
  One instrumentation instance (identity 0) with the tasks \<^verbatim>\<open>add\<close> and \<^verbatim>\<open>mul\<close>, a
  task of another application, and a task object without an \<^verbatim>\<open>app\<close> attribute. The tracer's
  \<^verbatim>\<open>extract\<close> answers with the remote context of the payload, \<^verbatim>\<open>inject\<close> with a
  one-entry carrier.
\<close>

definition app0 :: celery_tracing where
  "app0 =
     \<lparr>self_id = 0, propagate = True, span_tags = [],
      tasks = [(''add'', 7), (''other'', 8), (''mul'', 10)],
      tracer_extract = (\<lambda>payload. Inr (Some (Remote payload))),
      tracer_inject = (\<lambda>c carrier. Inr (VDict [(''span'', VStr ''s'')]))\<rparr>"

definition add_task :: task where
  "add_task =
     \<lparr>t_name = ''add'', t_app = Some 0,
      t_request =
        [(''headers'', VNone), (''correlation_id'', VStr ''abc''),
         (context_headers, VDict [(''span'', VStr ''s'')])],
      t_spans = None\<rparr>"

definition other_task :: task where
  "other_task = \<lparr>t_name = ''other'', t_app = Some 1, t_request = [], t_spans = None\<rparr>"

definition bare_task :: task where
  "bare_task = \<lparr>t_name = ''bare'', t_app = None, t_request = [], t_spans = None\<rparr>"

text \<open>A second local task, whose request carries no propagation payload.\<close>

definition mul_task :: task where
  "mul_task =
     \<lparr>t_name = ''mul'', t_app = Some 0,
      t_request = [(''headers'', VDict []), (''correlation_id'', VStr ''xyz'')],
      t_spans = None\<rparr>"

definition world0 :: world where
  "world0 =
     \<lparr>w_spans = [], w_active = [],
      w_tasks = [(7, add_task), (8, other_task), (9, bare_task), (10, mul_task)],
      w_warnings = []\<rparr>"

definition run_event :: "nat \<Rightarrow> run_kwargs" where
  "run_event r =
     \<lparr>rk_task = Some r, rk_sender = Some r, rk_task_id = Some (VStr ''abc''),
      rk_exception = None, rk_einfo = None, rk_traceback = None,
      rk_request = Some (VDict [(''id'', VStr ''abc'')]), rk_reason = None\<rparr>"

definition publish_event :: "string \<Rightarrow> pyval \<Rightarrow> pyval \<Rightarrow> publish_kwargs" where
  "publish_event name headers body =
     \<lparr>pk_sender = Some name, pk_headers = Some headers, pk_body = Some body\<rparr>"

text \<open>The world once \<^verbatim>\<open>add\<close> has been started with id \<^verbatim>\<open>abc\<close>.\<close>

definition running_span :: span where
  "running_span =
     \<lparr>sp_name = ''add'', sp_parent = Some (Remote (VDict [(''span'', VStr ''s'')])),
      sp_tags = [(''celery.task.id'', VStr ''abc''), (''component'', VStr ''celery'')],
      sp_finished = False, sp_logs = []\<rparr>"

definition running_world :: world where
  "running_world =
     \<lparr>w_spans = [running_span], w_active = [0],
      w_tasks = [(7, add_task\<lparr>t_spans := Some [(VStr ''abc'', 0)]\<rparr>), (8, other_task),
                 (9, bare_task), (10, mul_task)],
      w_warnings = []\<rparr>"

text \<open>The world once \<^verbatim>\<open>add\<close> has been published with headers \<^verbatim>\<open>{'id': 'abc'}\<close>.\<close>

definition publishing_world :: world where
  "publishing_world =
     \<lparr>w_spans =
        [\<lparr>sp_name = ''publish add'', sp_parent = None,
          sp_tags = [(''celery.task.id'', VStr ''abc''), (''component'', VStr ''celery'')],
          sp_finished = False, sp_logs = []\<rparr>],
      w_active = [0],
      w_tasks = [(7, add_task\<lparr>t_spans := Some [(VStr ''publish:abc'', 0)]\<rparr>), (8, other_task),
                 (9, bare_task), (10, mul_task)],
      w_warnings = []\<rparr>"

text \<open>
  The world once \<^verbatim>\<open>mul\<close> has been started, with id \<^verbatim>\<open>abc\<close> too, while \<^verbatim>\<open>add\<close> is
  running: the span of \<^verbatim>\<open>mul\<close> is the active one.
\<close>

definition leaking_world :: world where
  "leaking_world =
     \<lparr>w_spans = [running_span, running_span\<lparr>sp_name := ''mul'', sp_parent := None\<rparr>],
      w_active = [1, 0],
      w_tasks = [(7, add_task\<lparr>t_spans := Some [(VStr ''abc'', 0)]\<rparr>), (8, other_task),
                 (9, bare_task), (10, mul_task\<lparr>t_spans := Some [(VStr ''abc'', 1)]\<rparr>)],
      w_warnings = []\<rparr>"

section \<open>Auxiliary facts\<close>

lemmas scenario_defs = app0_def add_task_def other_task_def bare_task_def mul_task_def
  world0_def run_event_def publish_event_def running_span_def running_world_def
  publishing_world_def leaking_world_def

lemmas handler_defs = prepublish_def postpublish_def start_span_def finish_span_def
  published_task_def publish_task_id_def prepublish_tags_def body_metadata_def
  publish_headers_def store_span_def run_task_def run_parent_def request_context_def
  run_task_id_def get_span_def close_or_finish_def task_at_def put_task_def is_local_def
  kw_or_empty_def kw_or_none_def context_headers_def

lemmas tracer_defs = start_active_span_def update_span_def set_tag_def span_finish_def
  scope_close_def tag_span_def set_span_tags_def renamed_def COMPONENT_def
  MESSAGE_BUS_DESTINATION_def

lemma is_local_iff:
  "is_local self item \<longleftrightarrow> (\<exists>t. item = Some t \<and> t_app t = Some (self_id self))"
  by (auto simp: is_local_def split: option.splits)

subsection \<open>What the tracer operations leave alone\<close>

lemma w_tasks_update_span [simp]: "w_tasks (update_span sid f w) = w_tasks w"
  by (simp add: update_span_def)

lemma w_tasks_span_finish [simp]: "w_tasks (span_finish sid w) = w_tasks w"
  by (simp add: span_finish_def)

lemma w_tasks_scope_close [simp]: "w_tasks (scope_close w) = w_tasks w"
  by (simp add: scope_close_def split: list.splits)

lemma w_tasks_close_or_finish [simp]: "w_tasks (snd (close_or_finish sp w)) = w_tasks w"
  by (simp add: close_or_finish_def split: list.splits option.splits)

lemma task_at_put_task [simp]: "task_at (put_task r t w) (Some r) = Some t"
  by (simp add: task_at_def put_task_def update_conv')

lemma task_at_cong: "w_tasks w' = w_tasks w \<Longrightarrow> task_at w' ref = task_at w ref"
  by (simp add: task_at_def split: option.splits)

lemma get_span_removed:
  assumes "get_span t task_id True = Inr (Some sp, t1)"
  shows "get_span t1 task_id True = Inl KeyError" and "t_app t1 = t_app t"
  using assms
  by (auto simp: get_span_def delete_conv' split: option.splits if_splits)

subsection \<open>The only exception of tag extraction is the missing \<^verbatim>\<open>get\<close>\<close>

lemma py_get_error: "py_get v k = Inl e \<Longrightarrow> e = AttributeError"
  by (cases v) auto

lemma delivery_tags_error:
  "fst (delivery_tags subs val sp) = Some e \<Longrightarrow> e = AttributeError"
proof (induction subs arbitrary: sp)
  case Nil
  then show ?case by simp
next
  case (Cons subtag rest)
  then show ?case
    by (auto simp: Let_def split: sum.splits if_splits dest: py_get_error)
qed

lemma span_tags_loop_error:
  "fst (span_tags_loop tags headers sp) = Some e \<Longrightarrow> e = AttributeError"
proof (induction tags arbitrary: sp)
  case Nil
  then show ?case by simp
next
  case (Cons tag rest)
  show ?case
  proof (cases "py_get headers tag")
    case (Inl x)
    with Cons.prems show ?thesis by (simp add: py_get_error)
  next
    case (Inr val)
    show ?thesis
    proof (cases "delivery_tags
        [''exchange'', ''priority'', ''redelivered'', ''routing_key'', ''queue''] val sp")
      case (Pair de sp1)
      with Cons Inr show ?thesis
        using delivery_tags_error
          [of "[''exchange'', ''priority'', ''redelivered'', ''routing_key'', ''queue'']" val sp e]
        by (auto split: if_splits option.splits)
    qed
  qed
qed

lemma set_span_tags_error: "fst (set_span_tags sp headers) = Some e \<Longrightarrow> e = AttributeError"
  unfolding set_span_tags_def by (rule span_tags_loop_error)

lemma tag_span_error: "tag_span sid headers w = (Some e, w') \<Longrightarrow> e = AttributeError"
  using set_span_tags_error [of "w_spans w ! sid" headers e]
  by (auto simp: tag_span_def split: prod.splits)

subsection \<open>The steps of \<^verbatim>\<open>_prepublish\<close> for a local task\<close>

lemma prepublish_local:
  assumes "published_task self kw = Some r" and "task_at w (Some r) = Some t"
    and "is_local self (Some t)"
  shows "prepublish self kw w =
     (case start_active_span (''publish '' @ t_name t) None False (span_tags self) w of
        (sid, w1) \<Rightarrow>
          (case publish_task_id kw of
             Inl e \<Rightarrow> (Some e, w1, pk_headers kw)
           | Inr task_id \<Rightarrow>
               if task_id = VNone then (Some RuntimeError, w1, pk_headers kw)
               else
                 (case prepublish_tags t kw sid task_id w1 of
                    (Some e, w2) \<Rightarrow> (Some e, w2, pk_headers kw)
                  | (None, w2) \<Rightarrow>
                      (case publish_headers self sid (pk_headers kw) w2 of
                         (Some e, w3, hs) \<Rightarrow> (Some e, w3, hs)
                       | (None, w3, hs) \<Rightarrow>
                           (case store_span (VStr (''publish:'' @ py_str task_id)) sid t of
                              (e, t1) \<Rightarrow> (e, put_task r t1 w3, hs))))))"
  using assms by (simp add: prepublish_def)

lemma prepublish_tags_error:
  "prepublish_tags t kw sid task_id w = (Some e, w') \<Longrightarrow> e \<noteq> RuntimeError"
  by (auto simp: prepublish_tags_def body_metadata_def Let_def
      split: prod.splits option.splits sum.splits pyval.splits if_splits
      dest: tag_span_error)

lemma publish_headers_error:
  "publish_headers self sid hs w = (Some e, w', hs') \<Longrightarrow> e \<noteq> RuntimeError"
  by (auto simp: publish_headers_def Let_def
      split: prod.splits option.splits sum.splits pyval.splits if_splits
      dest: tag_span_error)

lemma store_span_error: "store_span key sid t = (Some e, t') \<Longrightarrow> e \<noteq> RuntimeError"
  by (auto simp: store_span_def Let_def split: if_splits)

subsection \<open>The destination tag\<close>

lemma tag_of_set_tag: "tag_of (set_tag k v sp) k' = (if k' = k then Some v else tag_of sp k')"
  by (simp add: tag_of_def set_tag_def update_conv')

lemma delivery_tags_destination_after:
  "\<exists>sp1. delivery_tags subs (VDict di) sp = (None, sp1) \<and>
     tag_of sp1 MESSAGE_BUS_DESTINATION
       = destination_after subs di (tag_of sp MESSAGE_BUS_DESTINATION)"
proof (induction subs arbitrary: sp)
  case Nil
  show ?case by simp
next
  case (Cons subtag rest)
  define subval where "subval = (case map_of di subtag of None \<Rightarrow> VNone | Some v \<Rightarrow> v)"
  define sp1 where "sp1 = set_tag (''celery.delivery.'' @ subtag) subval sp"
  define sp2 where "sp2 =
    (if subval \<notin> set [VNone, VStr []]
     then (if subtag \<in> set [''exchange'', ''routing_key'', ''queue'']
           then set_tag MESSAGE_BUS_DESTINATION subval sp1 else sp1)
     else sp)"
  have step: "delivery_tags (subtag # rest) (VDict di) sp = delivery_tags rest (VDict di) sp2"
    by (simp add: sp2_def sp1_def subval_def Let_def)
  have "tag_of sp1 MESSAGE_BUS_DESTINATION = tag_of sp MESSAGE_BUS_DESTINATION"
    by (simp add: sp1_def tag_of_set_tag MESSAGE_BUS_DESTINATION_def)
  then have dest: "tag_of sp2 MESSAGE_BUS_DESTINATION =
      (if subval \<notin> set [VNone, VStr []] \<and> subtag \<in> set [''exchange'', ''routing_key'', ''queue'']
       then Some subval else tag_of sp MESSAGE_BUS_DESTINATION)"
    by (simp add: sp2_def tag_of_set_tag)
  have after: "destination_after (subtag # rest) di (tag_of sp MESSAGE_BUS_DESTINATION)
      = destination_after rest di (tag_of sp2 MESSAGE_BUS_DESTINATION)"
    unfolding dest by (simp add: subval_def Let_def)
  show ?case
    unfolding step after by (rule Cons.IH)
qed

lemma destination_after_subtags:
  "destination_after [''exchange'', ''priority'', ''redelivered'', ''routing_key'', ''queue'']
     di before = destination_of di before"
  by (simp add: destination_of_def Let_def)

lemma delivery_tags_destination:
  "\<exists>sp1. delivery_tags [''exchange'', ''priority'', ''redelivered'', ''routing_key'', ''queue'']
            (VDict di) sp = (None, sp1) \<and>
         tag_of sp1 MESSAGE_BUS_DESTINATION = destination_of di (tag_of sp MESSAGE_BUS_DESTINATION)"
  using delivery_tags_destination_after
    [of "[''exchange'', ''priority'', ''redelivered'', ''routing_key'', ''queue'']" di sp]
  unfolding destination_after_subtags .

lemma destination_of_idem: "destination_of di (destination_of di x) = destination_of di x"
  by (simp add: destination_of_def Let_def)

lemma celery_tag_not_destination: "''celery.'' @ k \<noteq> MESSAGE_BUS_DESTINATION"
  by (simp add: MESSAGE_BUS_DESTINATION_def)

lemma span_tags_loop_destination:
  assumes "map_of m ''delivery_info'' = Some (VDict di)"
  shows "\<exists>sp'. span_tags_loop tags (VDict m) sp = (None, sp') \<and>
           tag_of sp' MESSAGE_BUS_DESTINATION =
             (if ''delivery_info'' \<in> set tags
              then destination_of di (tag_of sp MESSAGE_BUS_DESTINATION)
              else tag_of sp MESSAGE_BUS_DESTINATION)"
proof (induction tags arbitrary: sp)
  case Nil
  then show ?case by simp
next
  case (Cons tag rest)
  show ?case
  proof (cases "tag = ''delivery_info''")
    case True
    obtain sp1 where d:
      "delivery_tags [''exchange'', ''priority'', ''redelivered'', ''routing_key'', ''queue'']
         (VDict di) sp = (None, sp1)"
      "tag_of sp1 MESSAGE_BUS_DESTINATION = destination_of di (tag_of sp MESSAGE_BUS_DESTINATION)"
      using delivery_tags_destination [of di sp] by blast
    have step: "span_tags_loop (tag # rest) (VDict m) sp = span_tags_loop rest (VDict m) sp1"
      using True assms d(1) by simp
    from Cons.IH [of sp1] d(2) show ?thesis
      unfolding step using True by (auto simp: destination_of_idem)
  next
    case False
    define val where "val = (case map_of m tag of None \<Rightarrow> VNone | Some v \<Rightarrow> v)"
    define sp1 where "sp1 =
      (if val \<notin> set [VNone, VStr '''', VList [VNone, VNone], VTuple [VNone, VNone]]
       then set_tag (''celery.'' @ renamed tag) val sp else sp)"
    have step: "span_tags_loop (tag # rest) (VDict m) sp = span_tags_loop rest (VDict m) sp1"
      using False by (simp add: sp1_def val_def)
    have keep: "tag_of sp1 MESSAGE_BUS_DESTINATION = tag_of sp MESSAGE_BUS_DESTINATION"
      using celery_tag_not_destination [of "renamed tag"]
      by (auto simp: sp1_def tag_of_set_tag)
    from Cons.IH [of sp1] show ?thesis
      unfolding step keep using False by simp
  qed
qed

subsection \<open>The time-limit tag\<close>

lemma delivery_tags_timelimit:
  "tag_of (snd (delivery_tags subs val sp)) ''celery.timelimit'' = tag_of sp ''celery.timelimit''"
proof (induction subs arbitrary: sp)
  case Nil
  show ?case by simp
next
  case (Cons subtag rest)
  show ?case
  proof (cases "py_get val subtag")
    case (Inl e)
    then show ?thesis by simp
  next
    case (Inr subval)
    define sp1 where "sp1 = set_tag (''celery.delivery.'' @ subtag) subval sp"
    define sp2 where "sp2 =
      (if subval \<notin> set [VNone, VStr []]
       then (if subtag \<in> set [''exchange'', ''routing_key'', ''queue'']
             then set_tag MESSAGE_BUS_DESTINATION subval sp1 else sp1)
       else sp)"
    have step: "delivery_tags (subtag # rest) val sp = delivery_tags rest val sp2"
      using Inr by (simp add: sp2_def sp1_def Let_def)
    have "tag_of sp1 ''celery.timelimit'' = tag_of sp ''celery.timelimit''"
      by (simp add: sp1_def tag_of_set_tag)
    then have "tag_of sp2 ''celery.timelimit'' = tag_of sp ''celery.timelimit''"
      by (simp add: sp2_def tag_of_set_tag MESSAGE_BUS_DESTINATION_def)
    then show ?thesis
      unfolding step using Cons.IH [of sp2] by simp
  qed
qed

lemma renamed_timelimit: "renamed tag = ''timelimit'' \<longleftrightarrow> tag = ''timelimit''"
  by (simp add: renamed_def Let_def)

lemma span_tags_loop_timelimit:
  assumes "(case map_of m ''timelimit'' of None \<Rightarrow> VNone | Some v \<Rightarrow> v)
      \<in> set [VNone, VStr '''', VList [VNone, VNone], VTuple [VNone, VNone]]"
  shows "tag_of (snd (span_tags_loop tags (VDict m) sp)) ''celery.timelimit''
           = tag_of sp ''celery.timelimit''"
proof (induction tags arbitrary: sp)
  case Nil
  show ?case by simp
next
  case (Cons tag rest)
  define val where "val = (case map_of m tag of None \<Rightarrow> VNone | Some v \<Rightarrow> v)"
  show ?case
  proof (cases "val \<notin> set [VNone, VStr [], VList [VNone, VNone], VTuple [VNone, VNone]]")
    case False
    then have "span_tags_loop (tag # rest) (VDict m) sp = span_tags_loop rest (VDict m) sp"
      by (simp add: val_def)
    then show ?thesis using Cons.IH [of sp] by simp
  next
    case True
    show ?thesis
    proof (cases "tag = ''delivery_info''")
      case False
      define sp2 where "sp2 = set_tag (''celery.'' @ renamed tag) val sp"
      have step: "span_tags_loop (tag # rest) (VDict m) sp = span_tags_loop rest (VDict m) sp2"
        using True False by (simp add: sp2_def val_def)
      have "tag \<noteq> ''timelimit''"
        using True assms by (auto simp: val_def)
      then have "renamed tag \<noteq> ''timelimit''"
        by (simp add: renamed_timelimit)
      then have "tag_of sp2 ''celery.timelimit'' = tag_of sp ''celery.timelimit''"
        by (auto simp: sp2_def tag_of_set_tag)
      then show ?thesis
        unfolding step using Cons.IH [of sp2] by simp
    next
      case di: True
      obtain de sp1 where d: "delivery_tags
          [''exchange'', ''priority'', ''redelivered'', ''routing_key'', ''queue''] val sp = (de, sp1)"
        by (cases "delivery_tags
          [''exchange'', ''priority'', ''redelivered'', ''routing_key'', ''queue''] val sp")
      have sp1: "tag_of sp1 ''celery.timelimit'' = tag_of sp ''celery.timelimit''"
        using delivery_tags_timelimit
          [of "[''exchange'', ''priority'', ''redelivered'', ''routing_key'', ''queue'']" val sp] d
        by simp
      show ?thesis
      proof (cases de)
        case None
        have step: "span_tags_loop (tag # rest) (VDict m) sp = span_tags_loop rest (VDict m) sp1"
          using True di d None by (simp add: val_def del: delivery_tags.simps)
        show ?thesis
          unfolding step using sp1 Cons.IH [of sp1] by simp
      next
        case (Some e)
        have step: "span_tags_loop (tag # rest) (VDict m) sp = (Some e, sp1)"
          using True di d Some by (simp add: val_def del: delivery_tags.simps)
        show ?thesis
          unfolding step using sp1 by simp
      qed
    qed
  qed
qed

subsection \<open>What tag extraction leaves alone, and when it returns\<close>

lemma frame_trans:
  assumes "sp2 = sp\<lparr>sp_tags := sp_tags sp2\<rparr>" and "sp3 = sp2\<lparr>sp_tags := sp_tags sp3\<rparr>"
  shows "sp3 = sp\<lparr>sp_tags := sp_tags sp3\<rparr>"
proof -
  have "sp3 = (sp\<lparr>sp_tags := sp_tags sp2\<rparr>)\<lparr>sp_tags := sp_tags sp3\<rparr>"
    using assms by simp
  then show ?thesis by simp
qed

lemma set_tag_frame: "set_tag k v sp = sp\<lparr>sp_tags := sp_tags (set_tag k v sp)\<rparr>"
  by (simp add: set_tag_def)

lemma delivery_tags_frame:
  "snd (delivery_tags subs val sp) = sp\<lparr>sp_tags := sp_tags (snd (delivery_tags subs val sp))\<rparr>"
proof (induction subs arbitrary: sp)
  case Nil
  show ?case by simp
next
  case (Cons subtag rest)
  show ?case
  proof (cases "py_get val subtag")
    case (Inl e)
    then show ?thesis by simp
  next
    case (Inr subval)
    define sp1 where "sp1 = set_tag (''celery.delivery.'' @ subtag) subval sp"
    define sp2 where "sp2 =
      (if subval \<notin> set [VNone, VStr []]
       then (if subtag \<in> set [''exchange'', ''routing_key'', ''queue'']
             then set_tag MESSAGE_BUS_DESTINATION subval sp1 else sp1)
       else sp)"
    have step: "delivery_tags (subtag # rest) val sp = delivery_tags rest val sp2"
      using Inr by (simp add: sp2_def sp1_def Let_def)
    have "sp1 = sp\<lparr>sp_tags := sp_tags sp1\<rparr>"
      unfolding sp1_def by (rule set_tag_frame)
    then have "sp2 = sp\<lparr>sp_tags := sp_tags sp2\<rparr>"
      using frame_trans [OF _ set_tag_frame [of MESSAGE_BUS_DESTINATION subval sp1], of sp]
      by (simp add: sp2_def)
    then show ?thesis
      unfolding step using Cons.IH [of sp2] by (rule frame_trans)
  qed
qed

lemma span_tags_loop_frame:
  "snd (span_tags_loop tags headers sp)
     = sp\<lparr>sp_tags := sp_tags (snd (span_tags_loop tags headers sp))\<rparr>"
proof (induction tags arbitrary: sp)
  case Nil
  show ?case by simp
next
  case (Cons tag rest)
  show ?case
  proof (cases "py_get headers tag")
    case (Inl e)
    then show ?thesis by simp
  next
    case (Inr val)
    obtain de sp1 where d: "delivery_tags
        [''exchange'', ''priority'', ''redelivered'', ''routing_key'', ''queue''] val sp = (de, sp1)"
      by (cases "delivery_tags
        [''exchange'', ''priority'', ''redelivered'', ''routing_key'', ''queue''] val sp")
    have sp1: "sp1 = sp\<lparr>sp_tags := sp_tags sp1\<rparr>"
      using delivery_tags_frame
        [of "[''exchange'', ''priority'', ''redelivered'', ''routing_key'', ''queue'']" val sp] d
      by simp
    show ?thesis
    proof (cases "val \<notin> set [VNone, VStr [], VList [VNone, VNone], VTuple [VNone, VNone]]")
      case False
      then have "span_tags_loop (tag # rest) headers sp = span_tags_loop rest headers sp"
        using Inr by simp
      then show ?thesis using Cons.IH [of sp] by simp
    next
      case True
      show ?thesis
      proof (cases "tag = ''delivery_info''")
        case False
        define sp2 where "sp2 = set_tag (''celery.'' @ renamed tag) val sp"
        have step: "span_tags_loop (tag # rest) headers sp = span_tags_loop rest headers sp2"
          using Inr True False by (simp add: sp2_def)
        have "sp2 = sp\<lparr>sp_tags := sp_tags sp2\<rparr>"
          unfolding sp2_def by (rule set_tag_frame)
        then show ?thesis
          unfolding step using Cons.IH [of sp2] by (rule frame_trans)
      next
        case di: True
        show ?thesis
        proof (cases de)
          case None
          have step: "span_tags_loop (tag # rest) headers sp = span_tags_loop rest headers sp1"
            using Inr True di d None by (simp del: delivery_tags.simps)
          show ?thesis
            unfolding step using sp1 Cons.IH [of sp1] by (rule frame_trans)
        next
          case (Some e)
          have step: "span_tags_loop (tag # rest) headers sp = (Some e, sp1)"
            using Inr True di d Some by (simp del: delivery_tags.simps)
          show ?thesis
            unfolding step using sp1 by simp
        qed
      qed
    qed
  qed
qed

lemma set_span_tags_frame:
  "snd (set_span_tags sp headers) = sp\<lparr>sp_tags := sp_tags (snd (set_span_tags sp headers))\<rparr>"
  unfolding set_span_tags_def
  using set_tag_frame span_tags_loop_frame by (rule frame_trans)




lemma tag_span_frame:
  "\<exists>e tags. tag_span sid headers w
     = (e, w\<lparr>w_spans := (w_spans w)[sid := (w_spans w ! sid)\<lparr>sp_tags := tags\<rparr>]\<rparr>)"
proof -
  obtain e sp' where r: "set_span_tags (w_spans w ! sid) headers = (e, sp')"
    by (cases "set_span_tags (w_spans w ! sid) headers")
  have "sp' = (w_spans w ! sid)\<lparr>sp_tags := sp_tags sp'\<rparr>"
    using set_span_tags_frame [of "w_spans w ! sid" headers] r by simp
  then show ?thesis
    using r by (auto simp: tag_span_def intro: exI [of _ "sp_tags sp'"])
qed

subsection \<open>What a returning creation has stored\<close>

lemma start_span_stored:
  assumes "run_task rk = Some r" and "task_at w (Some r) = Some t"
    and "is_local self (Some t)" and "start_span self rk w = (None, w')"
  shows "\<exists>task_id. run_task_id rk t = Inr task_id \<and> task_id \<noteq> VNone \<and> hashable task_id \<and>
           task_at w' (Some r)
             = Some (t\<lparr>t_spans :=
                 Some (AList.update (key_of task_id) (length (w_spans w)) (table_of t))\<rparr>)"
proof -
  obtain parent where par: "run_parent self t = Inr parent"
    using assms by (cases "run_parent self t") (simp_all add: start_span_def)
  obtain sid w1 where st: "start_active_span (t_name t) parent True (span_tags self) w = (sid, w1)"
    by (cases "start_active_span (t_name t) parent True (span_tags self) w")
  have sid: "sid = length (w_spans w)"
    using st by (auto simp: start_active_span_def Let_def)
  obtain task_id where tid: "run_task_id rk t = Inr task_id"
    using assms par st by (cases "run_task_id rk t") (simp_all add: start_span_def)
  have nn: "task_id \<noteq> VNone"
    using assms par st tid by (auto simp: start_span_def)
  obtain e2 w2 where tg: "tag_span sid (VDict (t_request t))
      (update_span sid (set_tag ''celery.task.id'' task_id) w1) = (e2, w2)"
    by (cases "tag_span sid (VDict (t_request t))
      (update_span sid (set_tag ''celery.task.id'' task_id) w1)")
  have e2: "e2 = None"
    using assms par st tid nn tg by (cases e2) (simp_all add: start_span_def)
  obtain e3 t1 where sto: "store_span task_id sid t = (e3, t1)"
    by (cases "store_span task_id sid t")
  have fin: "e3 = None" "w' = put_task r t1 w2"
    using assms par st tid nn tg e2 sto by (simp_all add: start_span_def)
  have h: "hashable task_id"
    using sto fin(1) by (auto simp: store_span_def Let_def split: if_splits)
  then have t1: "t1 = t\<lparr>t_spans := Some (AList.update (key_of task_id) sid (table_of t))\<rparr>"
    using sto by (simp add: store_span_def Let_def table_of_def)
  show ?thesis
    using tid nn h fin(2) t1 sid by simp
qed

lemma prepublish_stored:
  assumes "published_task self pk = Some r" and "task_at w (Some r) = Some t"
    and "is_local self (Some t)" and "prepublish self pk w = (None, w', hs)"
  shows "\<exists>task_id. publish_task_id pk = Inr task_id \<and> task_id \<noteq> VNone \<and>
           task_at w' (Some r)
             = Some (t\<lparr>t_spans :=
                 Some (AList.update (VStr (''publish:'' @ py_str task_id))
                         (length (w_spans w)) (table_of t))\<rparr>)"
proof -
  note run = prepublish_local [OF assms(1-3)]
  obtain sid w1 where st:
    "start_active_span (''publish '' @ t_name t) None False (span_tags self) w = (sid, w1)"
    by (cases "start_active_span (''publish '' @ t_name t) None False (span_tags self) w")
  have sid: "sid = length (w_spans w)"
    using st by (auto simp: start_active_span_def Let_def)
  obtain task_id where tid: "publish_task_id pk = Inr task_id"
    using assms(4) run st by (cases "publish_task_id pk") simp_all
  have nn: "task_id \<noteq> VNone"
    using assms(4) run st tid by auto
  obtain e2 w2 where tg: "prepublish_tags t pk sid task_id w1 = (e2, w2)"
    by (cases "prepublish_tags t pk sid task_id w1")
  have e2: "e2 = None"
    using assms(4) run st tid nn tg by (cases e2) simp_all
  obtain e3 w3 hs3 where ph: "publish_headers self sid (pk_headers pk) w2 = (e3, w3, hs3)"
    by (cases "publish_headers self sid (pk_headers pk) w2")
  have e3: "e3 = None"
    using assms(4) run st tid nn tg e2 ph by (cases e3) simp_all
  obtain e4 t1 where sto: "store_span (VStr (''publish:'' @ py_str task_id)) sid t = (e4, t1)"
    by (cases "store_span (VStr (''publish:'' @ py_str task_id)) sid t")
  have fin: "e4 = None" "w' = put_task r t1 w3"
    using assms(4) run st tid nn tg e2 ph e3 sto by simp_all
  have t1: "t1 = t\<lparr>t_spans := Some (AList.update (VStr (''publish:'' @ py_str task_id)) sid
      (table_of t))\<rparr>"
    using sto by (simp add: store_span_def Let_def table_of_def)
  show ?thesis
    using tid nn fin(2) t1 sid by simp
qed

subsection \<open>The span a prerun has started, whether or not it then raises\<close>

lemma start_span_started:
  assumes "run_task kw = Some r" and "task_at w (Some r) = Some t"
    and "is_local self (Some t)" and "run_parent self t = Inr parent"
    and "start_span self kw w = (e, w')"
  shows "\<exists>tags. w_spans w' = w_spans w @
           [\<lparr>sp_name = t_name t, sp_parent = parent, sp_tags = tags,
             sp_finished = False, sp_logs = []\<rparr>] \<and>
         w_active w' = length (w_spans w) # w_active w"
proof -
  define sid where "sid = length (w_spans w)"
  define sp0 where "sp0 =
    \<lparr>sp_name = t_name t, sp_parent = parent, sp_tags = span_tags self,
     sp_finished = False, sp_logs = []\<rparr>"
  define w1 where "w1 = w\<lparr>w_spans := w_spans w @ [sp0], w_active := sid # w_active w\<rparr>"
  have st: "start_active_span (t_name t) parent True (span_tags self) w = (sid, w1)"
    by (cases parent) (simp_all add: start_active_span_def sid_def sp0_def w1_def Let_def)
  have good: "\<exists>tags. w_spans w1 = w_spans w @
           [\<lparr>sp_name = t_name t, sp_parent = parent, sp_tags = tags,
             sp_finished = False, sp_logs = []\<rparr>] \<and>
         w_active w1 = length (w_spans w) # w_active w"
    by (simp add: w1_def sp0_def sid_def)
  show ?thesis
  proof (cases "run_task_id kw t")
    case (Inl x)
    then have "w' = w1" using assms st by (simp add: start_span_def)
    then show ?thesis using good by simp
  next
    case (Inr task_id)
    show ?thesis
    proof (cases "task_id = VNone")
      case True
      then have "w' = w1" using assms st Inr by (simp add: start_span_def)
      then show ?thesis using good by simp
    next
      case False
      define w1a where "w1a = update_span sid (set_tag ''celery.task.id'' task_id) w1"
      obtain e2 tags where tg: "tag_span sid (VDict (t_request t)) w1a
          = (e2, w1a\<lparr>w_spans := (w_spans w1a)[sid := (w_spans w1a ! sid)\<lparr>sp_tags := tags\<rparr>]\<rparr>)"
        using tag_span_frame [of sid "VDict (t_request t)" w1a] by blast
      define w2 where "w2 = w1a\<lparr>w_spans := (w_spans w1a)[sid := (w_spans w1a ! sid)\<lparr>sp_tags := tags\<rparr>]\<rparr>"
      have w2: "w_spans w2 = w_spans w @
           [\<lparr>sp_name = t_name t, sp_parent = parent, sp_tags = tags,
             sp_finished = False, sp_logs = []\<rparr>]"
        "w_active w2 = length (w_spans w) # w_active w"
        by (simp_all add: w2_def w1a_def w1_def update_span_def sid_def sp0_def set_tag_def)
      have "w' = w2 \<or> (\<exists>t1. w' = put_task r t1 w2)"
        using assms st Inr False tg
        by (cases e2) (auto simp: start_span_def w1a_def w2_def split: prod.splits)
      then show ?thesis
        using w2 by (auto simp: put_task_def)
    qed
  qed
qed

subsection \<open>The end of a span\<close>

lemma finish_span_local:
  assumes "rk_sender kw = Some r" and "task_at w (Some r) = Some t"
    and "is_local self (Some t)"
    and "get_span t (kw_or_none (rk_task_id kw)) True = Inr (sp, t1)"
  shows "finish_span self kw w = close_or_finish sp (put_task r t1 w)"
  using assms by (simp add: finish_span_def)

lemma postpublish_local:
  assumes "published_task self kw = Some r" and "task_at w (Some r) = Some t"
    and "is_local self (Some t)" and "publish_task_id kw = Inr task_id"
    and "get_span t (VStr (''publish:'' @ py_str task_id)) True = Inr (sp, t1)"
  shows "postpublish self kw w = close_or_finish sp (put_task r t1 w)"
  using assms by (simp add: postpublish_def)

lemma close_or_finish_active:
  assumes "w_active w = a # rest"
  shows "close_or_finish (Some sp) w =
           (None,
            if sp = a then (span_finish a w)\<lparr>w_active := rest\<rparr>
            else (span_finish sp w)\<lparr>w_warnings := w_warnings w @ [(a, sp)]\<rparr>)"
  using assms by (simp add: close_or_finish_def scope_close_def)

lemma get_span_stored:
  assumes "hashable k"
  shows "get_span (t\<lparr>t_spans := Some (AList.update (key_of k) sid table)\<rparr>) k True
           = Inr (Some sid, t\<lparr>t_spans := Some (AList.delete (key_of k) table)\<rparr>)"
  using assms by (simp add: get_span_def update_conv' delete_update_same)

lemma start_span_warnings:
  "w_warnings (snd (start_span self kw w)) = w_warnings w"
proof -
  have tg: "w_warnings (snd (tag_span sid h v)) = w_warnings v" for sid h v
    by (simp add: tag_span_def split: prod.splits)
  then have tg': "w_warnings v' = w_warnings v" if "tag_span sid h v = (e, v')" for sid h v e v'
    using that tg [of sid h v] by simp
  show ?thesis
    by (auto simp: start_span_def start_active_span_def update_span_def put_task_def Let_def
        split: prod.splits option.splits sum.splits dest: tg')
qed

subsection \<open>What the stages of \<^verbatim>\<open>_prepublish\<close> leave alone\<close>

lemma tag_span_keeps:
  assumes "tag_span sid h v = (e, v')" and "w_spans v = base @ [s]" and "sid = length base"
  shows "(\<exists>tags. w_spans v' = base @ [s\<lparr>sp_tags := tags\<rparr>]) \<and> w_active v' = w_active v \<and>
         w_tasks v' = w_tasks v \<and> w_warnings v' = w_warnings v"
proof -
  obtain e' tags where "tag_span sid h v
      = (e', v\<lparr>w_spans := (w_spans v)[sid := (w_spans v ! sid)\<lparr>sp_tags := tags\<rparr>]\<rparr>)"
    using tag_span_frame [of sid h v] by blast
  then have v': "v' = v\<lparr>w_spans := (w_spans v)[sid := (w_spans v ! sid)\<lparr>sp_tags := tags\<rparr>]\<rparr>"
    using assms(1) by simp
  show ?thesis
    unfolding v' using assms(2,3) by auto
qed

lemma prepublish_tags_keeps:
  assumes "prepublish_tags t kw sid task_id v = (e, v')" and "w_spans v = base @ [s]"
    and "sid = length base"
  shows "(\<exists>tags. w_spans v' = base @ [s\<lparr>sp_tags := tags\<rparr>]) \<and> w_active v' = w_active v \<and>
         w_tasks v' = w_tasks v \<and> w_warnings v' = w_warnings v"
proof -
  define va where "va = update_span sid (set_tag ''celery.task.id'' task_id) v"
  have va: "w_spans va = base @ [s\<lparr>sp_tags := sp_tags (set_tag ''celery.task.id'' task_id s)\<rparr>]"
    "w_active va = w_active v" "w_tasks va = w_tasks v" "w_warnings va = w_warnings v"
    using assms(2,3) by (simp_all add: va_def update_span_def set_tag_def)
  obtain e1 v1 where t1: "tag_span sid (VDict (t_request t)) va = (e1, v1)"
    by (cases "tag_span sid (VDict (t_request t)) va")
  obtain tags1 where k1: "w_spans v1 = base @ [s\<lparr>sp_tags := tags1\<rparr>]"
    "w_active v1 = w_active v" "w_tasks v1 = w_tasks v" "w_warnings v1 = w_warnings v"
    using tag_span_keeps [OF t1 va(1) assms(3)] va(2-4) by auto
  have "v' = v1 \<or> (\<exists>body e2. tag_span sid body v1 = (e2, v'))"
    using assms(1) t1
    by (cases e1; cases "body_metadata (pk_body kw)")
      (auto simp: prepublish_tags_def va_def Let_def)
  then show ?thesis
  proof
    assume "v' = v1"
    then show ?thesis using k1 by auto
  next
    assume "\<exists>body e2. tag_span sid body v1 = (e2, v')"
    then obtain body e2 where "tag_span sid body v1 = (e2, v')" by blast
    from tag_span_keeps [OF this k1(1) assms(3)] show ?thesis
      using k1(2-4) by auto
  qed
qed

lemma publish_headers_keeps:
  assumes "publish_headers self sid hs v = (e, v', hs')" and "w_spans v = base @ [s]"
    and "sid = length base"
  shows "(\<exists>tags. w_spans v' = base @ [s\<lparr>sp_tags := tags\<rparr>]) \<and> w_active v' = w_active v \<and>
         w_tasks v' = w_tasks v \<and> w_warnings v' = w_warnings v"
proof (cases "kw_or_none hs = VNone")
  case True
  then have "v' = v" using assms(1) by (simp add: publish_headers_def)
  then show ?thesis using assms(2) by (auto intro: exI [of _ "sp_tags s"])
next
  case False
  obtain e1 v1 where t1: "tag_span sid (kw_or_none hs) v = (e1, v1)"
    by (cases "tag_span sid (kw_or_none hs) v")
  have "v' = v1"
    using assms(1) False t1
    by (cases e1)
      (auto simp: publish_headers_def Let_def split: pyval.splits sum.splits if_splits)
  then show ?thesis
    using tag_span_keeps [OF t1 assms(2,3)] by simp
qed

lemma publish_headers_injected:
  assumes "publish_headers self sid (Some (VDict h0)) v = (None, v', hs')" and "propagate self"
  shows "\<exists>carrier. tracer_inject self (ContextOf sid) (VDict []) = Inr carrier \<and>
           hs' = Some (VDict (AList.update context_headers carrier h0))"
  using assms
  by (auto simp: publish_headers_def Let_def kw_or_none_def
      split: prod.splits option.splits sum.splits)

lemma publish_headers_id:
  assumes "publish_headers self sid hs v = (None, v', hs')"
  shows "py_get (kw_or_empty hs') ''id'' = py_get (kw_or_empty hs) ''id''"
  using assms
  by (auto simp: publish_headers_def Let_def kw_or_none_def kw_or_empty_def update_conv'
      context_headers_def
      split: prod.splits option.splits sum.splits pyval.splits if_splits)

lemma prepublish_stages:
  assumes "published_task self pk = Some r" and "task_at w (Some r) = Some t"
    and "is_local self (Some t)" and "prepublish self pk w = (None, w', hs)"
  shows "\<exists>sid w1 task_id w2 w3 t1.
           start_active_span (''publish '' @ t_name t) None False (span_tags self) w = (sid, w1) \<and>
           publish_task_id pk = Inr task_id \<and> task_id \<noteq> VNone \<and>
           prepublish_tags t pk sid task_id w1 = (None, w2) \<and>
           publish_headers self sid (pk_headers pk) w2 = (None, w3, hs) \<and>
           store_span (VStr (''publish:'' @ py_str task_id)) sid t = (None, t1) \<and>
           w' = put_task r t1 w3"
proof -
  note run = prepublish_local [OF assms(1-3)]
  obtain sid w1 where st:
    "start_active_span (''publish '' @ t_name t) None False (span_tags self) w = (sid, w1)"
    by (cases "start_active_span (''publish '' @ t_name t) None False (span_tags self) w")
  obtain task_id where tid: "publish_task_id pk = Inr task_id"
    using assms(4) run st by (cases "publish_task_id pk") simp_all
  have nn: "task_id \<noteq> VNone"
    using assms(4) run st tid by auto
  obtain e2 w2 where tg: "prepublish_tags t pk sid task_id w1 = (e2, w2)"
    by (cases "prepublish_tags t pk sid task_id w1")
  have e2: "e2 = None"
    using assms(4) run st tid nn tg by (cases e2) simp_all
  obtain e3 w3 hs3 where ph: "publish_headers self sid (pk_headers pk) w2 = (e3, w3, hs3)"
    by (cases "publish_headers self sid (pk_headers pk) w2")
  have e3: "e3 = None"
    using assms(4) run st tid nn tg e2 ph by (cases e3) simp_all
  obtain e4 t1 where sto: "store_span (VStr (''publish:'' @ py_str task_id)) sid t = (e4, t1)"
    by (cases "store_span (VStr (''publish:'' @ py_str task_id)) sid t")
  have fin: "e4 = None" "w' = put_task r t1 w3" "hs3 = hs"
    using assms(4) run st tid nn tg e2 ph e3 sto by simp_all
  show ?thesis
    using st tid nn tg e2 ph e3 sto fin by simp
qed

subsection \<open>The scenario, run\<close>

lemma prerun_scenario: "start_span app0 (run_event 7) world0 = (None, running_world)"
  by (simp add: scenario_defs handler_defs tracer_defs)

lemma prepublish_scenario:
  "prepublish app0 (publish_event ''add'' (VDict [(''id'', VStr ''abc'')]) (VDict [])) world0
     = (None, publishing_world,
        Some (VDict [(''id'', VStr ''abc''), (context_headers, VDict [(''span'', VStr ''s'')])]))"
  by (simp add: scenario_defs handler_defs tracer_defs)

lemma leaking_scenario: "start_span app0 (run_event 10) running_world = (None, leaking_world)"
  by (simp add: scenario_defs handler_defs tracer_defs)

section \<open>Locality\<close>

text \<open>
  C3. An event whose resolved task is not local is ignored by each of the six handlers:
  no exception, and the world (the tracer's spans with their tags, the active scopes,
  the side-tables of all tasks, the warnings) and the headers are as before. A task is
  local exactly when it is an object with an \<^verbatim>\<open>app\<close> attribute that is this instance.
\<close>

theorem nonlocal_events_ignored:
  "(is_local self item \<longleftrightarrow> (\<exists>t. item = Some t \<and> t_app t = Some (self_id self))) \<and>
   (\<not> is_local self (task_at w (published_task self pk)) \<longrightarrow>
      prepublish self pk w = (None, w, pk_headers pk) \<and> postpublish self pk w = (None, w)) \<and>
   (\<not> is_local self (task_at w (run_task rk)) \<longrightarrow> start_span self rk w = (None, w)) \<and>
   (\<not> is_local self (task_at w (rk_sender rk)) \<longrightarrow>
      tag_error self rk w = (None, w) \<and> tag_retry self rk w = (None, w) \<and>
      finish_span self rk w = (None, w))"
  by (simp add: is_local_iff prepublish_def postpublish_def start_span_def tag_error_def
      tag_retry_def finish_span_def)

theorem nonlocal_events_ignored_witness:
  "\<not> is_local app0
       (task_at world0 (published_task app0 (publish_event ''other'' (VDict []) (VDict [])))) \<and>
   prepublish app0 (publish_event ''other'' (VDict []) (VDict [])) world0
     = (None, world0, Some (VDict [])) \<and>
   postpublish app0 (publish_event ''other'' (VDict []) (VDict [])) world0 = (None, world0) \<and>
   \<not> is_local app0 (task_at world0 (run_task (run_event 9))) \<and>
   start_span app0 (run_event 9) world0 = (None, world0) \<and>
   \<not> is_local app0 (task_at world0 (rk_sender (run_event 8))) \<and>
   tag_error app0 (run_event 8) world0 = (None, world0) \<and>
   tag_retry app0 (run_event 8) world0 = (None, world0) \<and>
   finish_span app0 (run_event 8) world0 = (None, world0)"
proof -
  have a: "\<not> is_local app0
      (task_at world0 (published_task app0 (publish_event ''other'' (VDict []) (VDict []))))"
    by (simp add: scenario_defs is_local_def task_at_def published_task_def)
  have b: "\<not> is_local app0 (task_at world0 (run_task (run_event 9)))"
    by (simp add: scenario_defs is_local_def task_at_def run_task_def)
  have c: "\<not> is_local app0 (task_at world0 (rk_sender (run_event 8)))"
    by (simp add: scenario_defs is_local_def task_at_def)
  have d: "pk_headers (publish_event ''other'' (VDict []) (VDict [])) = Some (VDict [])"
    by (simp add: publish_event_def)
  show ?thesis
    using a b c d
      nonlocal_events_ignored
        [of app0 None world0 "publish_event ''other'' (VDict []) (VDict [])" "run_event 9"]
      nonlocal_events_ignored
        [of app0 None world0 "publish_event ''other'' (VDict []) (VDict [])" "run_event 8"]
    by simp
qed

section \<open>The task-instance id at prepublish\<close>

text \<open>
  C4. A prepublish event on a local task whose headers and body are mappings (a missing
  keyword counts as the empty mapping). The id is
  \<^verbatim>\<open>headers.get('id') or body.get('id')\<close>: the headers yield it when their entry is
  truthy, the body when its entry is not \<^verbatim>\<open>None\<close>. When neither yields an id the handler
  raises \<^verbatim>\<open>RuntimeError\<close>; when either does, it does not.
\<close>

theorem prepublish_fatal_without_id:
  assumes "published_task self kw = Some r" and "task_at w (Some r) = Some t"
    and "is_local self (Some t)"
    and "kw_or_empty (pk_headers kw) = VDict hs" and "kw_or_empty (pk_body kw) = VDict bd"
    and "hid = (case map_of hs ''id'' of None \<Rightarrow> VNone | Some v \<Rightarrow> v)"
    and "bid = (case map_of bd ''id'' of None \<Rightarrow> VNone | Some v \<Rightarrow> v)"
  shows "(\<not> truthy hid \<and> bid = VNone \<longrightarrow> fst (prepublish self kw w) = Some RuntimeError) \<and>
         (truthy hid \<or> bid \<noteq> VNone \<longrightarrow> fst (prepublish self kw w) \<noteq> Some RuntimeError)"
proof -
  define task_id where "task_id = (if truthy hid then hid else bid)"
  have id: "publish_task_id kw = Inr task_id"
    using assms(4-7) by (simp add: publish_task_id_def task_id_def)
  have none: "task_id = VNone \<longleftrightarrow> \<not> truthy hid \<and> bid = VNone"
    by (auto simp: task_id_def)
  obtain sid w1 where st:
    "start_active_span (''publish '' @ t_name t) None False (span_tags self) w = (sid, w1)"
    by (cases "start_active_span (''publish '' @ t_name t) None False (span_tags self) w")
  have fatal: "fst (prepublish self kw w) = Some RuntimeError" if "task_id = VNone"
    using prepublish_local [OF assms(1-3)] id st that by simp
  have fine: "fst (prepublish self kw w) \<noteq> Some RuntimeError" if tid: "task_id \<noteq> VNone"
  proof -
    have run: "prepublish self kw w =
      (case prepublish_tags t kw sid task_id w1 of
         (Some e, w2) \<Rightarrow> (Some e, w2, pk_headers kw)
       | (None, w2) \<Rightarrow>
           (case publish_headers self sid (pk_headers kw) w2 of
              (Some e, w3, hs) \<Rightarrow> (Some e, w3, hs)
            | (None, w3, hs) \<Rightarrow>
                (case store_span (VStr (''publish:'' @ py_str task_id)) sid t of
                   (e, t1) \<Rightarrow> (e, put_task r t1 w3, hs))))"
      using prepublish_local [OF assms(1-3)] id st tid by simp
    show ?thesis
      unfolding run
      by (auto split: prod.splits option.splits
          dest: prepublish_tags_error publish_headers_error store_span_error)
  qed
  show ?thesis using fatal fine none by blast
qed

theorem prepublish_fatal_without_id_witness:
  "fst (prepublish app0 (publish_event ''add'' (VDict []) (VDict [])) world0)
     = Some RuntimeError \<and>
   fst (prepublish app0 (publish_event ''add'' (VDict [(''id'', VStr ''abc'')]) (VDict []))
          world0) \<noteq> Some RuntimeError \<and>
   fst (prepublish app0 (publish_event ''add'' (VDict []) (VDict [(''id'', VStr ''abc'')]))
          world0) \<noteq> Some RuntimeError"
proof -
  have reg: "published_task app0 (publish_event ''add'' hs bd) = Some 7" for hs bd
    by (simp add: scenario_defs published_task_def)
  have at: "task_at world0 (Some 7) = Some add_task"
    by (simp add: scenario_defs task_at_def)
  have loc: "is_local app0 (Some add_task)"
    by (simp add: scenario_defs is_local_def)
  have kws: "kw_or_empty (pk_headers (publish_event ''add'' (VDict hs) (VDict bd))) = VDict hs"
    "kw_or_empty (pk_body (publish_event ''add'' (VDict hs) (VDict bd))) = VDict bd" for hs bd
    by (simp_all add: publish_event_def kw_or_empty_def)
  show ?thesis
    using prepublish_fatal_without_id [OF reg at loc kws refl refl, of "[]" "[]"]
      prepublish_fatal_without_id [OF reg at loc kws refl refl, of "[(''id'', VStr ''abc'')]" "[]"]
      prepublish_fatal_without_id [OF reg at loc kws refl refl, of "[]" "[(''id'', VStr ''abc'')]"]
    by simp
qed

text \<open>
  C9. On prepublish for a local task, line 66 starts the publish span and makes it the
  active scope before line 69 resolves the id. When the id is absent (the headers'
  entry is falsy and the body has none), \<^verbatim>\<open>RuntimeError\<close> is raised with the new span
  in the tracer, unfinished and at the head of the active scopes; no side-table has
  changed, so the span is stored nowhere, and the world is not the one before the call.
\<close>

theorem prepublish_span_before_id:
  assumes "published_task self kw = Some r" and "task_at w (Some r) = Some t"
    and "is_local self (Some t)"
    and "py_get (kw_or_empty (pk_headers kw)) ''id'' = Inr hid" and "\<not> truthy hid"
    and "py_get (kw_or_empty (pk_body kw)) ''id'' = Inr VNone"
  shows "\<exists>w'. prepublish self kw w = (Some RuntimeError, w', pk_headers kw) \<and>
           w_spans w' = w_spans w @
             [\<lparr>sp_name = ''publish '' @ t_name t,
               sp_parent = (case w_active w of [] \<Rightarrow> None | a # _ \<Rightarrow> Some (ContextOf a)),
               sp_tags = span_tags self, sp_finished = False, sp_logs = []\<rparr>] \<and>
           w_active w' = length (w_spans w) # w_active w \<and>
           w_tasks w' = w_tasks w \<and> w_warnings w' = w_warnings w \<and> w' \<noteq> w"
proof -
  have id: "publish_task_id kw = Inr VNone"
    using assms(4-6) by (simp add: publish_task_id_def)
  define w' where
    "w' = snd (start_active_span (''publish '' @ t_name t) None False (span_tags self) w)"
  have "prepublish self kw w = (Some RuntimeError, w', pk_headers kw)"
    using prepublish_local [OF assms(1-3)] id by (simp add: w'_def split: prod.splits)
  moreover have "w_active w' = length (w_spans w) # w_active w"
    by (simp add: w'_def start_active_span_def Let_def)
  moreover from this have "w' \<noteq> w" by auto
  ultimately show ?thesis
    by (auto simp: w'_def start_active_span_def Let_def)
qed

theorem prepublish_span_before_id_witness:
  "\<exists>w'. prepublish app0 (publish_event ''add'' (VDict []) (VDict [])) world0
           = (Some RuntimeError, w', Some (VDict [])) \<and>
         w_spans w' =
           [\<lparr>sp_name = ''publish add'', sp_parent = None, sp_tags = [], sp_finished = False,
             sp_logs = []\<rparr>] \<and>
         w_active w' = [0] \<and> w_tasks w' = w_tasks world0 \<and> w' \<noteq> world0"
proof -
  have reg: "published_task app0 (publish_event ''add'' (VDict []) (VDict [])) = Some 7"
    by (simp add: scenario_defs published_task_def)
  have at: "task_at world0 (Some 7) = Some add_task"
    by (simp add: scenario_defs task_at_def)
  have loc: "is_local app0 (Some add_task)"
    by (simp add: scenario_defs is_local_def)
  have h: "py_get (kw_or_empty (pk_headers (publish_event ''add'' (VDict []) (VDict [])))) ''id''
      = Inr VNone"
    by (simp add: publish_event_def kw_or_empty_def)
  have b: "py_get (kw_or_empty (pk_body (publish_event ''add'' (VDict []) (VDict [])))) ''id''
      = Inr VNone"
    by (simp add: publish_event_def kw_or_empty_def)
  have f: "\<not> truthy VNone" by simp
  from prepublish_span_before_id [OF reg at loc h f b]
  obtain w' where
    "prepublish app0 (publish_event ''add'' (VDict []) (VDict [])) world0
       = (Some RuntimeError, w', pk_headers (publish_event ''add'' (VDict []) (VDict [])))"
    "w_spans w' = w_spans world0 @
       [\<lparr>sp_name = ''publish '' @ t_name add_task,
         sp_parent = (case w_active world0 of [] \<Rightarrow> None | a # _ \<Rightarrow> Some (ContextOf a)),
         sp_tags = span_tags app0, sp_finished = False, sp_logs = []\<rparr>]"
    "w_active w' = length (w_spans world0) # w_active world0"
    "w_tasks w' = w_tasks world0" "w' \<noteq> world0"
    by blast
  then show ?thesis
    by (intro exI [of _ w']) (simp add: scenario_defs)
qed

section \<open>The side-table\<close>

text \<open>
  C10. A task object without the side-table attribute: the lookup returns \<^verbatim>\<open>None\<close>
  and leaves the task as it is, for every id and with or without removal. A
  \<^verbatim>\<open>KeyError\<close> arises only when the attribute exists.
\<close>

theorem get_span_without_table:
  "(t_spans t = None \<longrightarrow> get_span t task_id remove = Inr (None, t)) \<and>
   (get_span t task_id remove = Inl KeyError \<longrightarrow> t_spans t \<noteq> None)"
  by (auto simp: get_span_def split: option.splits if_splits)

theorem get_span_without_table_witness:
  "get_span bare_task (VStr ''abc'') True = Inr (None, bare_task) \<and>
   get_span bare_task (VStr ''abc'') False = Inr (None, bare_task) \<and>
   get_span (bare_task\<lparr>t_spans := Some []\<rparr>) (VStr ''abc'') False = Inl KeyError \<and>
   t_spans (bare_task\<lparr>t_spans := Some []\<rparr>) \<noteq> None"
proof -
  have a: "t_spans bare_task = None"
    by (simp add: bare_task_def)
  have b: "get_span (bare_task\<lparr>t_spans := Some []\<rparr>) (VStr ''abc'') False = Inl KeyError"
    by (simp add: get_span_def)
  have "get_span bare_task (VStr ''abc'') True = Inr (None, bare_task)"
    using a get_span_without_table [of bare_task "VStr ''abc''" True] by blast
  moreover have "get_span bare_task (VStr ''abc'') False = Inr (None, bare_task)"
    using a get_span_without_table [of bare_task "VStr ''abc''" False] by blast
  moreover have "t_spans (bare_task\<lparr>t_spans := Some []\<rparr>) \<noteq> None"
    using b get_span_without_table [of "bare_task\<lparr>t_spans := Some []\<rparr>" "VStr ''abc''" False]
    by blast
  ultimately show ?thesis
    using b by blast
qed

text \<open>
  C8. Once a postrun on a local task has retrieved and removed the span of an id
  (whether the handler then returned or raised at the scope check), a second postrun
  for the same id raises \<^verbatim>\<open>KeyError\<close> and changes nothing.
\<close>

theorem second_postrun_key_error:
  assumes "rk_sender kw = Some r" and "task_at w (Some r) = Some t"
    and "is_local self (Some t)"
    and "get_span t (kw_or_none (rk_task_id kw)) True = Inr (Some sp, t1)"
    and "finish_span self kw w = (e, w')"
  shows "finish_span self kw w' = (Some KeyError, w')"
proof -
  have first: "close_or_finish (Some sp) (put_task r t1 w) = (e, w')"
    using assms by (simp add: finish_span_def)
  then have "w_tasks w' = w_tasks (put_task r t1 w)"
    using w_tasks_close_or_finish [of "Some sp" "put_task r t1 w"] by simp
  then have at: "task_at w' (Some r) = Some t1"
    using task_at_cong [of w' "put_task r t1 w" "Some r"] by simp
  have loc: "is_local self (Some t1)"
    using assms(3) get_span_removed(2) [OF assms(4)] by (simp add: is_local_def)
  show ?thesis
    using at loc get_span_removed(1) [OF assms(4)] assms(1)
    by (simp add: finish_span_def)
qed

theorem second_postrun_key_error_witness:
  "fst (finish_span app0 (run_event 7) running_world) = None \<and>
   finish_span app0 (run_event 7) (snd (finish_span app0 (run_event 7) running_world))
     = (Some KeyError, snd (finish_span app0 (run_event 7) running_world))"
proof -
  have s: "rk_sender (run_event 7) = Some 7"
    by (simp add: run_event_def)
  have at: "task_at running_world (Some 7) = Some (add_task\<lparr>t_spans := Some [(VStr ''abc'', 0)]\<rparr>)"
    by (simp add: scenario_defs task_at_def)
  have loc: "is_local app0 (Some (add_task\<lparr>t_spans := Some [(VStr ''abc'', 0)]\<rparr>))"
    by (simp add: scenario_defs is_local_def)
  have g: "get_span (add_task\<lparr>t_spans := Some [(VStr ''abc'', 0)]\<rparr>)
      (kw_or_none (rk_task_id (run_event 7))) True = Inr (Some 0, add_task\<lparr>t_spans := Some []\<rparr>)"
    by (simp add: scenario_defs get_span_def kw_or_none_def)
  have ok: "fst (finish_span app0 (run_event 7) running_world) = None"
    using s at loc g
    by (simp add: finish_span_def close_or_finish_def put_task_def running_world_def)
  obtain e w' where run: "finish_span app0 (run_event 7) running_world = (e, w')"
    by (cases "finish_span app0 (run_event 7) running_world")
  show ?thesis
    using ok run second_postrun_key_error [OF s at loc g run]
    by simp
qed

section \<open>Tag extraction\<close>

text \<open>
  C7. For a metadata mapping whose \<^verbatim>\<open>delivery_info\<close> is a mapping, tag extraction
  returns and leaves as the message-destination tag the queue if it is present (neither
  \<^verbatim>\<open>None\<close> nor \<^verbatim>\<open>''\<close>), else the routing key if present, else the exchange if
  present, else what the tag was before. For \<^verbatim>\<open>{queue: q1, routing_key: r1,
  exchange: e1}\<close> the tag is \<^verbatim>\<open>q1\<close>.
\<close>

theorem destination_tag_priority:
  assumes "py_get headers ''delivery_info'' = Inr (VDict di)"
    and "queue = (case map_of di ''queue'' of None \<Rightarrow> VNone | Some v \<Rightarrow> v)"
    and "routing_key = (case map_of di ''routing_key'' of None \<Rightarrow> VNone | Some v \<Rightarrow> v)"
    and "exchange = (case map_of di ''exchange'' of None \<Rightarrow> VNone | Some v \<Rightarrow> v)"
  shows "\<exists>sp'. set_span_tags sp headers = (None, sp') \<and>
           tag_of sp' MESSAGE_BUS_DESTINATION =
             (if queue \<notin> set [VNone, VStr ''''] then Some queue
              else if routing_key \<notin> set [VNone, VStr ''''] then Some routing_key
              else if exchange \<notin> set [VNone, VStr ''''] then Some exchange
              else tag_of sp MESSAGE_BUS_DESTINATION)"
proof -
  obtain m where m: "headers = VDict m" "map_of m ''delivery_info'' = Some (VDict di)"
    using assms(1) by (cases headers) (auto split: option.splits)
  have comp: "tag_of (set_tag COMPONENT (VStr ''celery'') sp) MESSAGE_BUS_DESTINATION
      = tag_of sp MESSAGE_BUS_DESTINATION"
    by (simp add: tag_of_set_tag COMPONENT_def MESSAGE_BUS_DESTINATION_def)
  have mem: "''delivery_info'' \<in> set [''countdown'', ''delivery_info'', ''eta'', ''expires'',
      ''group'', ''hostname'', ''origin'', ''retries'', ''timelimit'']"
    by simp
  obtain sp' where loop:
    "span_tags_loop [''countdown'', ''delivery_info'', ''eta'', ''expires'', ''group'',
       ''hostname'', ''origin'', ''retries'', ''timelimit''] (VDict m)
       (set_tag COMPONENT (VStr ''celery'') sp) = (None, sp')"
    "tag_of sp' MESSAGE_BUS_DESTINATION = destination_of di (tag_of sp MESSAGE_BUS_DESTINATION)"
    using span_tags_loop_destination [OF m(2),
        of "[''countdown'', ''delivery_info'', ''eta'', ''expires'', ''group'', ''hostname'',
             ''origin'', ''retries'', ''timelimit'']" "set_tag COMPONENT (VStr ''celery'') sp"]
    unfolding comp if_P [OF mem] by blast
  have "set_span_tags sp headers = (None, sp')"
    unfolding set_span_tags_def m(1) by (rule loop(1))
  moreover have "tag_of sp' MESSAGE_BUS_DESTINATION =
      (if queue \<notin> set [VNone, VStr ''''] then Some queue
       else if routing_key \<notin> set [VNone, VStr ''''] then Some routing_key
       else if exchange \<notin> set [VNone, VStr ''''] then Some exchange
       else tag_of sp MESSAGE_BUS_DESTINATION)"
    unfolding loop(2) destination_of_def Let_def assms(2-4) by (rule refl)
  ultimately show ?thesis by blast
qed

theorem destination_tag_priority_witness:
  "\<exists>sp'. set_span_tags running_span
           (VDict [(''delivery_info'',
              VDict [(''queue'', VStr ''q1''), (''routing_key'', VStr ''r1''),
                     (''exchange'', VStr ''e1'')])]) = (None, sp') \<and>
         tag_of sp' MESSAGE_BUS_DESTINATION = Some (VStr ''q1'')"
  using destination_tag_priority [OF _ refl refl refl, of
      "VDict [(''delivery_info'',
          VDict [(''queue'', VStr ''q1''), (''routing_key'', VStr ''r1''),
                 (''exchange'', VStr ''e1'')])]"
      "[(''queue'', VStr ''q1''), (''routing_key'', VStr ''r1''), (''exchange'', VStr ''e1'')]"
      running_span]
  by simp

text \<open>
  X6. A time limit that is one of the skipped values, the pair \<^verbatim>\<open>(None, None)\<close> or the
  list \<^verbatim>\<open>[None, None]\<close> among them, produces no tag: after tag extraction the span's
  \<^verbatim>\<open>celery.timelimit\<close> tag is what it was, whatever else the metadata holds and whether
  or not the extraction raises.
\<close>

theorem empty_timelimit_sets_no_tag:
  assumes "py_get headers ''timelimit'' = Inr limit"
    and "limit \<in> set [VNone, VStr '''', VList [VNone, VNone], VTuple [VNone, VNone]]"
  shows "tag_of (snd (set_span_tags sp headers)) ''celery.timelimit''
           = tag_of sp ''celery.timelimit''"
proof -
  obtain m where m: "headers = VDict m"
    "(case map_of m ''timelimit'' of None \<Rightarrow> VNone | Some v \<Rightarrow> v) = limit"
    using assms(1) by (cases headers) auto
  have "tag_of (set_tag COMPONENT (VStr ''celery'') sp) ''celery.timelimit''
      = tag_of sp ''celery.timelimit''"
    by (simp add: tag_of_set_tag COMPONENT_def)
  then show ?thesis
    unfolding set_span_tags_def m(1)
    using span_tags_loop_timelimit [of m _ "set_tag COMPONENT (VStr ''celery'') sp"] assms(2) m(2)
    by (simp del: span_tags_loop.simps)
qed

theorem empty_timelimit_sets_no_tag_witness:
  "tag_of (snd (set_span_tags running_span
       (VDict [(''timelimit'', VTuple [VNone, VNone]), (''retries'', VInt 2)])))
     ''celery.timelimit'' = None \<and>
   tag_of (snd (set_span_tags running_span
       (VDict [(''timelimit'', VList [VNone, VNone])])))
     ''celery.timelimit'' = None"
proof -
  have none: "tag_of running_span ''celery.timelimit'' = None"
    by (simp add: running_span_def tag_of_def)
  show ?thesis
    using none
      empty_timelimit_sets_no_tag
        [of "VDict [(''timelimit'', VTuple [VNone, VNone]), (''retries'', VInt 2)]"
          "VTuple [VNone, VNone]" running_span]
      empty_timelimit_sets_no_tag
        [of "VDict [(''timelimit'', VList [VNone, VNone])]" "VList [VNone, VNone]" running_span]
    by simp
qed

section \<open>The span of a run\<close>



text \<open>
  X4. A prerun on a local task whose id resolves to \<^verbatim>\<open>None\<close>: line 117 has started
  the span before line 122 checks the id, so \<^verbatim>\<open>RuntimeError\<close> is raised with the span in
  the tracer, unfinished and active, and in no side-table.
\<close>

theorem start_span_without_id:
  assumes "run_task kw = Some r" and "task_at w (Some r) = Some t"
    and "is_local self (Some t)" and "run_parent self t = Inr parent"
    and "run_task_id kw t = Inr VNone"
  shows "start_span self kw w =
           (Some RuntimeError,
            w\<lparr>w_spans := w_spans w @
                  [\<lparr>sp_name = t_name t, sp_parent = parent, sp_tags = span_tags self,
                    sp_finished = False, sp_logs = []\<rparr>],
              w_active := length (w_spans w) # w_active w\<rparr>)"
  using assms
  by (cases parent) (simp_all add: start_span_def start_active_span_def Let_def)

theorem start_span_without_id_witness:
  "start_span app0 ((run_event 10)\<lparr>rk_task_id := Some VNone\<rparr>) world0 =
     (Some RuntimeError,
      world0\<lparr>w_spans :=
                [\<lparr>sp_name = ''mul'', sp_parent = None, sp_tags = [], sp_finished = False,
                  sp_logs = []\<rparr>],
              w_active := [0]\<rparr>)"
proof -
  have rt: "run_task ((run_event 10)\<lparr>rk_task_id := Some VNone\<rparr>) = Some 10"
    by (simp add: run_event_def run_task_def)
  have at: "task_at world0 (Some 10) = Some mul_task"
    by (simp add: scenario_defs task_at_def)
  have loc: "is_local app0 (Some mul_task)"
    by (simp add: scenario_defs is_local_def)
  have par: "run_parent app0 mul_task = Inr None"
    by (simp add: scenario_defs run_parent_def request_context_def context_headers_def)
  have id: "run_task_id ((run_event 10)\<lparr>rk_task_id := Some VNone\<rparr>) mul_task = Inr VNone"
    by (simp add: scenario_defs run_task_id_def)
  show ?thesis
    using start_span_without_id [OF rt at loc par id]
    by (simp add: scenario_defs)
qed

text \<open>
  X5. A prerun on a local task with propagation enabled, whose request has no truthy
  direct payload and whose \<^verbatim>\<open>headers\<close> attribute is \<^verbatim>\<open>None\<close>: the lookup of the
  payload raises \<^verbatim>\<open>AttributeError\<close> before any span is started, and nothing has
  changed.
\<close>

theorem start_span_headers_none:
  assumes "run_task kw = Some r" and "task_at w (Some r) = Some t"
    and "is_local self (Some t)" and "propagate self"
    and "\<not> truthy (case map_of (t_request t) context_headers of None \<Rightarrow> VNone | Some v \<Rightarrow> v)"
    and "map_of (t_request t) ''headers'' = Some VNone"
  shows "start_span self kw w = (Some AttributeError, w)"
  using assms
  by (simp add: start_span_def run_parent_def request_context_def)

theorem start_span_headers_none_witness:
  "start_span app0 (run_event 10)
     (world0\<lparr>w_tasks := [(10, mul_task\<lparr>t_request := [(''headers'', VNone),
                                                           (''correlation_id'', VStr ''xyz'')]\<rparr>)]\<rparr>)
     = (Some AttributeError,
        world0\<lparr>w_tasks := [(10, mul_task\<lparr>t_request := [(''headers'', VNone),
                                                              (''correlation_id'', VStr ''xyz'')]\<rparr>)]\<rparr>)"
proof -
  have rt: "run_task (run_event 10) = Some 10"
    by (simp add: run_event_def run_task_def)
  have at: "task_at
      (world0\<lparr>w_tasks := [(10, mul_task\<lparr>t_request := [(''headers'', VNone),
         (''correlation_id'', VStr ''xyz'')]\<rparr>)]\<rparr>) (Some 10)
      = Some (mul_task\<lparr>t_request := [(''headers'', VNone), (''correlation_id'', VStr ''xyz'')]\<rparr>)"
    by (simp add: task_at_def)
  have loc: "is_local app0
      (Some (mul_task\<lparr>t_request := [(''headers'', VNone), (''correlation_id'', VStr ''xyz'')]\<rparr>))"
    by (simp add: scenario_defs is_local_def)
  have pg: "propagate app0"
    by (simp add: app0_def)
  have d: "\<not> truthy (case map_of (t_request (mul_task\<lparr>t_request := [(''headers'', VNone),
      (''correlation_id'', VStr ''xyz'')]\<rparr>)) context_headers of None \<Rightarrow> VNone | Some v \<Rightarrow> v)"
    by (simp add: context_headers_def)
  have h: "map_of (t_request (mul_task\<lparr>t_request := [(''headers'', VNone),
      (''correlation_id'', VStr ''xyz'')]\<rparr>)) ''headers'' = Some VNone"
    by simp
  show ?thesis
    using start_span_headers_none [OF rt at loc pg d h] .
qed

section \<open>Creation and the side-table\<close>

text \<open>
  C5. The side-table is a dict, so it holds at most one span per key. Span creation
  assigns the new span to its key without looking at the table: when prerun returns, the
  task's table is the one before with the id mapped to the new span, and when
  prepublish returns, the one before with \<^verbatim>\<open>publish:<id>\<close> mapped to the new span.
  Every other key keeps its entry; an entry that was stored under the key is replaced.
\<close>

theorem span_creation_assigns_key:
  "(run_task rk = Some r \<and> task_at w (Some r) = Some t \<and> is_local self (Some t) \<and>
    start_span self rk w = (None, w') \<longrightarrow>
      (\<exists>task_id t'. run_task_id rk t = Inr task_id \<and> task_at w' (Some r) = Some t' \<and>
         map_of (table_of t')
           = (map_of (table_of t))(key_of task_id \<mapsto> length (w_spans w)))) \<and>
   (published_task self pk = Some r \<and> task_at w (Some r) = Some t \<and> is_local self (Some t) \<and>
    prepublish self pk w = (None, w', hs) \<longrightarrow>
      (\<exists>task_id t'. publish_task_id pk = Inr task_id \<and> task_at w' (Some r) = Some t' \<and>
         map_of (table_of t')
           = (map_of (table_of t))
               (VStr (''publish:'' @ py_str task_id) \<mapsto> length (w_spans w))))"
proof (intro conjI impI)
  assume a: "run_task rk = Some r \<and> task_at w (Some r) = Some t \<and> is_local self (Some t) \<and>
    start_span self rk w = (None, w')"
  then obtain task_id t' where
    "run_task_id rk t = Inr task_id" "task_at w' (Some r) = Some t'"
    "t_spans t' = Some (AList.update (key_of task_id) (length (w_spans w)) (table_of t))"
    using start_span_stored [of rk r w t self w'] by auto
  then show "\<exists>task_id t'. run_task_id rk t = Inr task_id \<and> task_at w' (Some r) = Some t' \<and>
      map_of (table_of t') = (map_of (table_of t))(key_of task_id \<mapsto> length (w_spans w))"
    by (auto simp: table_of_def update_conv')
next
  assume a: "published_task self pk = Some r \<and> task_at w (Some r) = Some t \<and>
    is_local self (Some t) \<and> prepublish self pk w = (None, w', hs)"
  then obtain task_id t' where
    "publish_task_id pk = Inr task_id" "task_at w' (Some r) = Some t'"
    "t_spans t' = Some (AList.update (VStr (''publish:'' @ py_str task_id))
       (length (w_spans w)) (table_of t))"
    using prepublish_stored [of self pk r w t w' hs] by auto
  then show "\<exists>task_id t'. publish_task_id pk = Inr task_id \<and> task_at w' (Some r) = Some t' \<and>
      map_of (table_of t')
        = (map_of (table_of t))(VStr (''publish:'' @ py_str task_id) \<mapsto> length (w_spans w))"
    by (auto simp: table_of_def update_conv')
qed

theorem span_creation_assigns_key_witness:
  "(\<exists>task_id t'. run_task_id (run_event 7) add_task = Inr task_id \<and>
      task_at running_world (Some 7) = Some t' \<and>
      map_of (table_of t') = (map_of (table_of add_task))(key_of task_id \<mapsto> 0)) \<and>
   (\<exists>task_id t'.
      publish_task_id (publish_event ''add'' (VDict [(''id'', VStr ''abc'')]) (VDict []))
        = Inr task_id \<and>
      task_at publishing_world (Some 7) = Some t' \<and>
      map_of (table_of t')
        = (map_of (table_of add_task))(VStr (''publish:'' @ py_str task_id) \<mapsto> 0))"
proof -
  have rt: "run_task (run_event 7) = Some 7"
    by (simp add: run_event_def run_task_def)
  have reg: "published_task app0 (publish_event ''add'' (VDict [(''id'', VStr ''abc'')]) (VDict []))
      = Some 7"
    by (simp add: scenario_defs published_task_def)
  have at: "task_at world0 (Some 7) = Some add_task"
    by (simp add: scenario_defs task_at_def)
  have loc: "is_local app0 (Some add_task)"
    by (simp add: scenario_defs is_local_def)
  have len: "length (w_spans world0) = 0"
    by (simp add: world0_def)
  have first: "\<exists>task_id t'. run_task_id (run_event 7) add_task = Inr task_id \<and>
      task_at running_world (Some 7) = Some t' \<and>
      map_of (table_of t') = (map_of (table_of add_task))(key_of task_id \<mapsto> 0)"
    using span_creation_assigns_key
      [of "run_event 7" 7 world0 add_task app0 running_world, THEN conjunct1]
      rt at loc prerun_scenario len
    by simp
  have second: "\<exists>task_id t'.
      publish_task_id (publish_event ''add'' (VDict [(''id'', VStr ''abc'')]) (VDict []))
        = Inr task_id \<and>
      task_at publishing_world (Some 7) = Some t' \<and>
      map_of (table_of t')
        = (map_of (table_of add_task))(VStr (''publish:'' @ py_str task_id) \<mapsto> 0)"
    using span_creation_assigns_key
      [of _ 7 world0 add_task app0 publishing_world
          "publish_event ''add'' (VDict [(''id'', VStr ''abc'')]) (VDict [])", THEN conjunct2]
      reg at loc prepublish_scenario len
    by simp
  show ?thesis using first second by (rule conjI)
qed

text \<open>
  A prerun for an id whose span is still in the side-table, live: the handler returns,
  the entry now holds the second span, and the first span is unfinished and in no table.
\<close>

theorem prerun_overwrites_live_entry:
  "task_at running_world (Some 7) = Some (add_task\<lparr>t_spans := Some [(VStr ''abc'', 0)]\<rparr>) \<and>
   \<not> sp_finished (w_spans running_world ! 0) \<and>
   fst (start_span app0 (run_event 7) running_world) = None \<and>
   task_at (snd (start_span app0 (run_event 7) running_world)) (Some 7)
     = Some (add_task\<lparr>t_spans := Some [(VStr ''abc'', 1)]\<rparr>) \<and>
   \<not> sp_finished (w_spans (snd (start_span app0 (run_event 7) running_world)) ! 0)"
  by (simp add: scenario_defs handler_defs tracer_defs)

section \<open>The legacy body\<close>

text \<open>
  C6. For a body that is the legacy 3-tuple, \<^verbatim>\<open>body[2]\<close> is its third and last element:
  tag extraction is applied to that element, and the handler does what it does for a
  body that is this element (the id coming from the headers, since a tuple has no
  \<^verbatim>\<open>get\<close>). For a mapping body, tag extraction is applied to the body itself.
\<close>

theorem legacy_body_third_element:
  assumes "published_task self kw = Some r" and "task_at w (Some r) = Some t"
    and "is_local self (Some t)"
    and "py_get (kw_or_empty (pk_headers kw)) ''id'' = Inr hid" and "truthy hid"
  shows "body_metadata (Some (VTuple [args, kwargs, VDict options])) = Inr (VDict options) \<and>
         body_metadata (Some (VDict body)) = Inr (VDict body) \<and>
         prepublish_tags t (kw\<lparr>pk_body := Some (VTuple [args, kwargs, VDict options])\<rparr>)
             sid task_id w1
           = (case tag_span sid (VDict (t_request t))
                     (update_span sid (set_tag ''celery.task.id'' task_id) w1) of
                (Some e, w2) \<Rightarrow> (Some e, w2)
              | (None, w2) \<Rightarrow> tag_span sid (VDict options) w2) \<and>
         prepublish self (kw\<lparr>pk_body := Some (VTuple [args, kwargs, VDict options])\<rparr>) w
           = prepublish self (kw\<lparr>pk_body := Some (VDict options)\<rparr>) w"
proof -
  have meta: "body_metadata (Some (VTuple [args, kwargs, VDict options])) = Inr (VDict options)"
    "body_metadata (Some (VDict b)) = Inr (VDict b)" for b
    by (simp_all add: body_metadata_def kw_or_none_def)
  have tags: "prepublish_tags t (kw\<lparr>pk_body := Some (VTuple [args, kwargs, VDict options])\<rparr>) s i v
      = prepublish_tags t (kw\<lparr>pk_body := Some (VDict options)\<rparr>) s i v" for s i v
    by (simp add: prepublish_tags_def meta split: prod.splits option.splits)
  have id: "publish_task_id (kw\<lparr>pk_body := b\<rparr>) = Inr hid" for b
    using assms(4,5) by (simp add: publish_task_id_def)
  have reg: "published_task self (kw\<lparr>pk_body := b\<rparr>) = Some r" for b
    using assms(1) by (simp add: published_task_def)
  have hdr: "pk_headers (kw\<lparr>pk_body := b\<rparr>) = pk_headers kw" for b
    by simp
  have "prepublish self (kw\<lparr>pk_body := Some (VTuple [args, kwargs, VDict options])\<rparr>) w
      = prepublish self (kw\<lparr>pk_body := Some (VDict options)\<rparr>) w"
    unfolding prepublish_local [OF reg assms(2,3)] id tags hdr by (rule refl)
  moreover have "prepublish_tags t (kw\<lparr>pk_body := Some (VTuple [args, kwargs, VDict options])\<rparr>)
             sid task_id w1
           = (case tag_span sid (VDict (t_request t))
                     (update_span sid (set_tag ''celery.task.id'' task_id) w1) of
                (Some e, w2) \<Rightarrow> (Some e, w2)
              | (None, w2) \<Rightarrow> tag_span sid (VDict options) w2)"
    by (simp add: prepublish_tags_def meta split: prod.splits option.splits)
  ultimately show ?thesis using meta by simp
qed

theorem legacy_body_third_element_witness:
  "prepublish app0
     (publish_event ''add'' (VDict [(''id'', VStr ''abc'')])
        (VTuple [VList [], VDict [(''origin'', VStr ''middle'')],
                 VDict [(''origin'', VStr ''last'')]]))
     world0
   = prepublish app0
       (publish_event ''add'' (VDict [(''id'', VStr ''abc'')])
          (VDict [(''origin'', VStr ''last'')]))
       world0"
proof -
  have reg: "published_task app0 (publish_event ''add'' (VDict [(''id'', VStr ''abc'')]) VNone)
      = Some 7"
    by (simp add: scenario_defs published_task_def)
  have at: "task_at world0 (Some 7) = Some add_task"
    by (simp add: scenario_defs task_at_def)
  have loc: "is_local app0 (Some add_task)"
    by (simp add: scenario_defs is_local_def)
  have h: "py_get (kw_or_empty (pk_headers
      (publish_event ''add'' (VDict [(''id'', VStr ''abc'')]) VNone))) ''id'' = Inr (VStr ''abc'')"
    by (simp add: publish_event_def kw_or_empty_def)
  have tr: "truthy (VStr ''abc'')"
    by simp
  have upd: "(publish_event ''add'' hs VNone)\<lparr>pk_body := Some b\<rparr> = publish_event ''add'' hs b"
    for hs b
    by (simp add: publish_event_def)
  show ?thesis
    using legacy_body_third_element [OF reg at loc h tr,
        of "VList []" "VDict [(''origin'', VStr ''middle'')]" "[(''origin'', VStr ''last'')]"]
    unfolding upd by simp
qed

text \<open>
  With \<^verbatim>\<open>origin\<close> in both the middle and the last element of the tuple, the span's
  origin tag is the last element's, and the handler does not do what it does for the
  middle element as the body.
\<close>

theorem legacy_body_counterexample:
  "body_metadata
     (Some (VTuple [VList [], VDict [(''origin'', VStr ''middle'')],
                    VDict [(''origin'', VStr ''last'')]]))
     = Inr (VDict [(''origin'', VStr ''last'')]) \<and>
   tag_of
     (w_spans (fst (snd (prepublish app0
        (publish_event ''add'' (VDict [(''id'', VStr ''abc'')])
           (VTuple [VList [], VDict [(''origin'', VStr ''middle'')],
                    VDict [(''origin'', VStr ''last'')]]))
        world0))) ! 0)
     ''celery.task.origin'' = Some (VStr ''last'') \<and>
   prepublish app0
     (publish_event ''add'' (VDict [(''id'', VStr ''abc'')])
        (VTuple [VList [], VDict [(''origin'', VStr ''middle'')],
                 VDict [(''origin'', VStr ''last'')]]))
     world0
   \<noteq> prepublish app0
       (publish_event ''add'' (VDict [(''id'', VStr ''abc'')])
          (VDict [(''origin'', VStr ''middle'')]))
       world0"
  by (simp add: scenario_defs handler_defs tracer_defs tag_of_def)

section \<open>Closing a span with no active scope\<close>

text \<open>
  C2. The tail of \<^verbatim>\<open>_finish_span\<close> and \<^verbatim>\<open>_postpublish\<close> reads
  \<^verbatim>\<open>active_scope.span\<close> before it chooses between closing the scope and finishing the
  span. With the span in the side-table and no scope active, \<^verbatim>\<open>active_scope\<close> is
  \<^verbatim>\<open>None\<close> and the handler raises \<^verbatim>\<open>AttributeError\<close>: the span has been removed
  from the side-table, it is not finished, and no warning is logged.
\<close>

theorem finish_without_active_scope_raises:
  "fst (finish_span app0 (run_event 7) (running_world\<lparr>w_active := []\<rparr>)) = Some AttributeError \<and>
   w_spans (snd (finish_span app0 (run_event 7) (running_world\<lparr>w_active := []\<rparr>)))
     = [running_span] \<and>
   \<not> sp_finished running_span \<and>
   w_warnings (snd (finish_span app0 (run_event 7) (running_world\<lparr>w_active := []\<rparr>))) = [] \<and>
   task_at (snd (finish_span app0 (run_event 7) (running_world\<lparr>w_active := []\<rparr>))) (Some 7)
     = Some (add_task\<lparr>t_spans := Some []\<rparr>) \<and>
   fst (postpublish app0 (publish_event ''add'' (VDict [(''id'', VStr ''abc'')]) (VDict []))
          (publishing_world\<lparr>w_active := []\<rparr>)) = Some AttributeError \<and>
   w_spans (snd (postpublish app0 (publish_event ''add'' (VDict [(''id'', VStr ''abc'')]) (VDict []))
          (publishing_world\<lparr>w_active := []\<rparr>))) = w_spans publishing_world \<and>
   \<not> sp_finished (w_spans publishing_world ! 0) \<and>
   task_at (snd (postpublish app0 (publish_event ''add'' (VDict [(''id'', VStr ''abc'')]) (VDict []))
          (publishing_world\<lparr>w_active := []\<rparr>))) (Some 7)
     = Some (add_task\<lparr>t_spans := Some []\<rparr>)"
  by (simp add: scenario_defs handler_defs tracer_defs)

text \<open>
  X1. With a scope active and the span of the id in the side-table of a local task,
  \<^verbatim>\<open>_finish_span\<close> and \<^verbatim>\<open>_postpublish\<close> return: the entry is removed, and when
  the active scope's span is the span retrieved, the scope is closed (the span finished,
  the scope before it active again); otherwise the span is finished and one warning
  naming the active span and the span is logged.
\<close>

theorem close_or_finish_with_active_scope:
  assumes "w_active w = a # rest" and "task_at w (Some r) = Some t" and "is_local self (Some t)"
  shows "(rk_sender rk = Some r \<and>
          get_span t (kw_or_none (rk_task_id rk)) True = Inr (Some sp, t1) \<longrightarrow>
            finish_span self rk w =
              (None,
               if sp = a then (span_finish a (put_task r t1 w))\<lparr>w_active := rest\<rparr>
               else (span_finish sp (put_task r t1 w))
                      \<lparr>w_warnings := w_warnings w @ [(a, sp)]\<rparr>)) \<and>
         (published_task self pk = Some r \<and> publish_task_id pk = Inr task_id \<and>
          get_span t (VStr (''publish:'' @ py_str task_id)) True = Inr (Some sp, t1) \<longrightarrow>
            postpublish self pk w =
              (None,
               if sp = a then (span_finish a (put_task r t1 w))\<lparr>w_active := rest\<rparr>
               else (span_finish sp (put_task r t1 w))
                      \<lparr>w_warnings := w_warnings w @ [(a, sp)]\<rparr>))"
proof -
  have act: "w_active (put_task r t1 w) = a # rest"
    using assms(1) by (simp add: put_task_def)
  have warn: "w_warnings (put_task r t1 w) = w_warnings w"
    by (simp add: put_task_def)
  show ?thesis
    using finish_span_local [OF _ assms(2,3), of rk "Some sp" t1]
      postpublish_local [OF _ assms(2,3), of pk task_id "Some sp" t1]
      close_or_finish_active [OF act, of sp] warn
    by auto
qed

theorem close_or_finish_with_active_scope_witness:
  "finish_span app0 (run_event 7) leaking_world =
     (None,
      leaking_world
        \<lparr>w_spans := [running_span\<lparr>sp_finished := True\<rparr>,
                     running_span\<lparr>sp_name := ''mul'', sp_parent := None\<rparr>],
         w_tasks := [(7, add_task\<lparr>t_spans := Some []\<rparr>), (8, other_task), (9, bare_task),
                     (10, mul_task\<lparr>t_spans := Some [(VStr ''abc'', 1)]\<rparr>)],
         w_warnings := [(1, 0)]\<rparr>) \<and>
   postpublish app0 (publish_event ''add'' (VDict [(''id'', VStr ''abc'')]) (VDict []))
       publishing_world =
     (None,
      publishing_world
        \<lparr>w_spans := [(w_spans publishing_world ! 0)\<lparr>sp_finished := True\<rparr>],
         w_active := [],
         w_tasks := [(7, add_task\<lparr>t_spans := Some []\<rparr>), (8, other_task), (9, bare_task),
                     (10, mul_task)]\<rparr>)"
proof -
  have s: "rk_sender (run_event 7) = Some 7"
    by (simp add: run_event_def)
  have reg: "published_task app0 (publish_event ''add'' (VDict [(''id'', VStr ''abc'')]) (VDict []))
      = Some 7"
    by (simp add: scenario_defs published_task_def)
  have id: "publish_task_id (publish_event ''add'' (VDict [(''id'', VStr ''abc'')]) (VDict []))
      = Inr (VStr ''abc'')"
    by (simp add: publish_event_def publish_task_id_def kw_or_empty_def)
  have at: "task_at leaking_world (Some 7) = Some (add_task\<lparr>t_spans := Some [(VStr ''abc'', 0)]\<rparr>)"
    by (simp add: leaking_world_def task_at_def)
  have atp: "task_at publishing_world (Some 7)
      = Some (add_task\<lparr>t_spans := Some [(VStr ''publish:abc'', 0)]\<rparr>)"
    by (simp add: publishing_world_def task_at_def)
  have loc: "is_local app0 (Some (add_task\<lparr>t_spans := x\<rparr>))" for x
    by (simp add: scenario_defs is_local_def)
  have g: "get_span (add_task\<lparr>t_spans := Some [(VStr ''abc'', 0)]\<rparr>)
      (kw_or_none (rk_task_id (run_event 7))) True = Inr (Some 0, add_task\<lparr>t_spans := Some []\<rparr>)"
    by (simp add: run_event_def get_span_def kw_or_none_def)
  have gp: "get_span (add_task\<lparr>t_spans := Some [(VStr ''publish:abc'', 0)]\<rparr>)
      (VStr (''publish:'' @ py_str (VStr ''abc''))) True
        = Inr (Some 0, add_task\<lparr>t_spans := Some []\<rparr>)"
    by (simp add: get_span_def)
  have a: "w_active leaking_world = [1, 0]" "w_active publishing_world = [0]"
    by (simp_all add: leaking_world_def publishing_world_def)
  have first: "finish_span app0 (run_event 7) leaking_world =
     (None,
      leaking_world
        \<lparr>w_spans := [running_span\<lparr>sp_finished := True\<rparr>,
                     running_span\<lparr>sp_name := ''mul'', sp_parent := None\<rparr>],
         w_tasks := [(7, add_task\<lparr>t_spans := Some []\<rparr>), (8, other_task), (9, bare_task),
                     (10, mul_task\<lparr>t_spans := Some [(VStr ''abc'', 1)]\<rparr>)],
         w_warnings := [(1, 0)]\<rparr>)"
    using close_or_finish_with_active_scope
        [where rk = "run_event 7" and sp = 0 and ?t1.0 = "add_task\<lparr>t_spans := Some []\<rparr>",
         OF a(1) at loc, THEN conjunct1]
      s g
    by (simp add: leaking_world_def put_task_def span_finish_def update_span_def)
  have second: "postpublish app0 (publish_event ''add'' (VDict [(''id'', VStr ''abc'')]) (VDict []))
       publishing_world =
     (None,
      publishing_world
        \<lparr>w_spans := [(w_spans publishing_world ! 0)\<lparr>sp_finished := True\<rparr>],
         w_active := [],
         w_tasks := [(7, add_task\<lparr>t_spans := Some []\<rparr>), (8, other_task), (9, bare_task),
                     (10, mul_task)]\<rparr>)"
    using close_or_finish_with_active_scope
        [where pk = "publish_event ''add'' (VDict [(''id'', VStr ''abc'')]) (VDict [])"
          and task_id = "VStr ''abc''" and sp = 0 and ?t1.0 = "add_task\<lparr>t_spans := Some []\<rparr>",
         OF a(2) atp loc, THEN conjunct2]
      reg id gp
    by (simp add: publishing_world_def put_task_def span_finish_def update_span_def)
  show ?thesis using first second by (rule conjI)
qed

section \<open>Round trips\<close>

text \<open>
  X2. A prerun that returns, then the postrun with the same keyword arguments (the task
  id among them), on a local task: the postrun returns; the tracer has exactly one span
  more than before the prerun, named after the task and finished; the active scopes and
  the warnings are those before the prerun, and the id has no entry in the side-table.
\<close>

theorem prerun_postrun_round_trip:
  assumes "run_task kw = Some r" and "rk_sender kw = Some r" and "rk_task_id kw = Some task_id"
    and "task_at w (Some r) = Some t" and "is_local self (Some t)"
    and "start_span self kw w = (None, w')"
  shows "\<exists>w'' sp.
           finish_span self kw w' = (None, w'') \<and>
           w_spans w'' = w_spans w @ [sp] \<and> sp_finished sp \<and> sp_name sp = t_name t \<and>
           w_active w'' = w_active w \<and> w_warnings w'' = w_warnings w \<and>
           task_at w'' (Some r)
             = Some (t\<lparr>t_spans := Some (AList.delete (key_of task_id) (table_of t))\<rparr>)"
proof -
  define sid where "sid = length (w_spans w)"
  obtain tid where tid: "run_task_id kw t = Inr tid" "hashable tid"
    and at': "task_at w' (Some r)
      = Some (t\<lparr>t_spans := Some (AList.update (key_of tid) sid (table_of t))\<rparr>)"
    using start_span_stored [OF assms(1,4,5,6)] unfolding sid_def by blast
  have same: "tid = task_id"
    using tid(1) assms(3) by (auto simp: run_task_id_def split: option.splits)
  obtain parent where par: "run_parent self t = Inr parent"
    using assms by (cases "run_parent self t") (simp_all add: start_span_def)
  obtain tags where started:
    "w_spans w' = w_spans w @
       [\<lparr>sp_name = t_name t, sp_parent = parent, sp_tags = tags,
         sp_finished = False, sp_logs = []\<rparr>]"
    "w_active w' = sid # w_active w"
    using start_span_started [OF assms(1,4,5) par assms(6)] unfolding sid_def by blast
  have warn: "w_warnings w' = w_warnings w"
    using start_span_warnings [of self kw w] assms(6) by simp
  define t' where "t' = t\<lparr>t_spans := Some (AList.update (key_of task_id) sid (table_of t))\<rparr>"
  define t1 where "t1 = t\<lparr>t_spans := Some (AList.delete (key_of task_id) (table_of t))\<rparr>"
  have loc: "is_local self (Some t')"
    using assms(5) by (simp add: is_local_def t'_def)
  have g: "get_span t' (kw_or_none (rk_task_id kw)) True = Inr (Some sid, t1)"
    using get_span_stored [where k = task_id and t = t and sid = sid and table = "table_of t"]
      tid(2) same assms(3)
    by (simp add: t'_def t1_def kw_or_none_def)
  have act: "w_active (put_task r t1 w') = sid # w_active w"
    using started(2) by (simp add: put_task_def)
  have fin: "finish_span self kw w'
      = (None, (span_finish sid (put_task r t1 w'))\<lparr>w_active := w_active w\<rparr>)"
    using finish_span_local [OF assms(2) _ loc g, of w'] at' same
      close_or_finish_active [OF act, of sid]
    by (simp add: t'_def)
  show ?thesis
    unfolding fin
    using started(1) warn
    by (simp add: span_finish_def update_span_def put_task_def sid_def t1_def task_at_def
        update_conv')
qed

theorem prerun_postrun_round_trip_witness:
  "\<exists>w'' sp.
     finish_span app0 (run_event 7) running_world = (None, w'') \<and>
     w_spans w'' = [sp] \<and> sp_finished sp \<and> sp_name sp = ''add'' \<and> w_active w'' = [] \<and>
     task_at w'' (Some 7) = Some (add_task\<lparr>t_spans := Some []\<rparr>)"
proof -
  have rt: "run_task (run_event 7) = Some 7" "rk_sender (run_event 7) = Some 7"
    "rk_task_id (run_event 7) = Some (VStr ''abc'')"
    by (simp_all add: run_event_def run_task_def)
  have at: "task_at world0 (Some 7) = Some add_task"
    by (simp add: scenario_defs task_at_def)
  have loc: "is_local app0 (Some add_task)"
    by (simp add: scenario_defs is_local_def)
  show ?thesis
    using prerun_postrun_round_trip [OF rt at loc prerun_scenario]
    by (simp add: world0_def add_task_def table_of_def) blast
qed

text \<open>
  X3. A prepublish that returns, then the postpublish with the headers as the prepublish
  left them, on a local task: the postpublish returns; the tracer has exactly one span
  more, named \<^verbatim>\<open>publish <task name>\<close> and finished; the active scopes and the warnings
  are those before, and \<^verbatim>\<open>publish:<id>\<close> has no entry in the side-table. With
  propagation enabled and headers that are a dict, the headers hold under the reserved
  key the carrier that the tracer's \<^verbatim>\<open>inject\<close> filled for the new span.
\<close>

theorem prepublish_postpublish_round_trip:
  assumes "published_task self kw = Some r" and "task_at w (Some r) = Some t"
    and "is_local self (Some t)" and "prepublish self kw w = (None, w', hs)"
  shows "\<exists>task_id w'' sp.
           publish_task_id kw = Inr task_id \<and>
           postpublish self (kw\<lparr>pk_headers := hs\<rparr>) w' = (None, w'') \<and>
           w_spans w'' = w_spans w @ [sp] \<and> sp_finished sp \<and>
           sp_name sp = ''publish '' @ t_name t \<and>
           w_active w'' = w_active w \<and> w_warnings w'' = w_warnings w \<and>
           task_at w'' (Some r)
             = Some (t\<lparr>t_spans :=
                 Some (AList.delete (VStr (''publish:'' @ py_str task_id)) (table_of t))\<rparr>) \<and>
           (propagate self \<longrightarrow>
              (\<forall>h0. pk_headers kw = Some (VDict h0) \<longrightarrow>
                 (\<exists>carrier. tracer_inject self (ContextOf (length (w_spans w))) (VDict [])
                      = Inr carrier \<and>
                    hs = Some (VDict (AList.update context_headers carrier h0)))))"
proof -
  obtain sid w1 task_id w2 w3 t1 where
    st: "start_active_span (''publish '' @ t_name t) None False (span_tags self) w = (sid, w1)"
    and tid: "publish_task_id kw = Inr task_id"
    and tg: "prepublish_tags t kw sid task_id w1 = (None, w2)"
    and ph: "publish_headers self sid (pk_headers kw) w2 = (None, w3, hs)"
    and sto: "store_span (VStr (''publish:'' @ py_str task_id)) sid t = (None, t1)"
    and w': "w' = put_task r t1 w3"
    using prepublish_stages [OF assms] by blast
  define key where "key = VStr (''publish:'' @ py_str task_id)"
  define sp0 where "sp0 =
    \<lparr>sp_name = ''publish '' @ t_name t,
     sp_parent = (case w_active w of [] \<Rightarrow> None | a # _ \<Rightarrow> Some (ContextOf a)),
     sp_tags = span_tags self, sp_finished = False, sp_logs = []\<rparr>"
  have sid: "sid = length (w_spans w)"
    and w1: "w_spans w1 = w_spans w @ [sp0]" "w_active w1 = sid # w_active w"
      "w_tasks w1 = w_tasks w" "w_warnings w1 = w_warnings w"
    using st by (auto simp: start_active_span_def Let_def sp0_def)
  obtain tags2 where w2: "w_spans w2 = w_spans w @ [sp0\<lparr>sp_tags := tags2\<rparr>]"
    "w_active w2 = sid # w_active w" "w_warnings w2 = w_warnings w"
    using prepublish_tags_keeps [OF tg w1(1) sid] w1(2-4) by auto
  obtain tags3 where w3: "w_spans w3 = w_spans w @ [sp0\<lparr>sp_tags := tags3\<rparr>]"
    "w_active w3 = sid # w_active w" "w_warnings w3 = w_warnings w"
    using publish_headers_keeps [OF ph w2(1) sid] w2(2,3) by auto
  have t1: "t1 = t\<lparr>t_spans := Some (AList.update key sid (table_of t))\<rparr>"
    using sto by (simp add: store_span_def Let_def table_of_def key_def)
  define t2 where "t2 = t\<lparr>t_spans := Some (AList.delete key (table_of t))\<rparr>"
  have reg: "published_task self (kw\<lparr>pk_headers := hs\<rparr>) = Some r"
    using assms(1) by (simp add: published_task_def)
  have id': "publish_task_id (kw\<lparr>pk_headers := hs\<rparr>) = Inr task_id"
    using tid publish_headers_id [OF ph]
    by (auto simp: publish_task_id_def split: sum.splits if_splits)
  have at': "task_at w' (Some r) = Some t1"
    by (simp add: w')
  have loc: "is_local self (Some t1)"
    using assms(3) by (simp add: is_local_def t1)
  have g: "get_span t1 key True = Inr (Some sid, t2)"
    using get_span_stored [where k = key and t = t and sid = sid and table = "table_of t"]
    by (simp add: t1 t2_def key_def)
  have act: "w_active (put_task r t2 w') = sid # w_active w"
    using w3(2) by (simp add: put_task_def w')
  have fin: "postpublish self (kw\<lparr>pk_headers := hs\<rparr>) w'
      = (None, (span_finish sid (put_task r t2 w'))\<lparr>w_active := w_active w\<rparr>)"
    using postpublish_local [OF reg at' loc id', of "Some sid" t2] g
      close_or_finish_active [OF act, of sid]
    by (simp add: key_def)
  have inj: "\<exists>carrier. tracer_inject self (ContextOf (length (w_spans w))) (VDict []) = Inr carrier \<and>
      hs = Some (VDict (AList.update context_headers carrier h0))"
    if "propagate self" "pk_headers kw = Some (VDict h0)" for h0
    using publish_headers_injected [of self sid h0 w2 w3 hs] ph that sid by simp
  have "w_spans ((span_finish sid (put_task r t2 w'))\<lparr>w_active := w_active w\<rparr>)
      = w_spans w @ [sp0\<lparr>sp_tags := tags3, sp_finished := True\<rparr>]"
    using w3(1) sid by (simp add: span_finish_def update_span_def put_task_def w')
  moreover have "w_warnings ((span_finish sid (put_task r t2 w'))\<lparr>w_active := w_active w\<rparr>)
      = w_warnings w"
    using w3(3) by (simp add: span_finish_def update_span_def put_task_def w')
  moreover have "task_at ((span_finish sid (put_task r t2 w'))\<lparr>w_active := w_active w\<rparr>) (Some r)
      = Some t2"
    by (simp add: span_finish_def update_span_def put_task_def task_at_def update_conv')
  ultimately show ?thesis
    using tid fin inj unfolding t2_def key_def
    by (intro exI [of _ task_id]
        exI [of _ "(span_finish sid (put_task r t2 w'))\<lparr>w_active := w_active w\<rparr>"]
        exI [of _ "sp0\<lparr>sp_tags := tags3, sp_finished := True\<rparr>"])
      (simp add: sp0_def t2_def key_def)
qed

theorem prepublish_postpublish_round_trip_witness:
  "\<exists>w'' sp.
     postpublish app0
       (publish_event ''add''
          (VDict [(''id'', VStr ''abc''), (context_headers, VDict [(''span'', VStr ''s'')])])
          (VDict []))
       publishing_world = (None, w'') \<and>
     w_spans w'' = [sp] \<and> sp_finished sp \<and> sp_name sp = ''publish add'' \<and>
     w_active w'' = [] \<and>
     task_at w'' (Some 7) = Some (add_task\<lparr>t_spans := Some []\<rparr>) \<and>
     tracer_inject app0 (ContextOf 0) (VDict []) = Inr (VDict [(''span'', VStr ''s'')])"
proof -
  have reg: "published_task app0 (publish_event ''add'' (VDict [(''id'', VStr ''abc'')]) (VDict []))
      = Some 7"
    by (simp add: scenario_defs published_task_def)
  have at: "task_at world0 (Some 7) = Some add_task"
    by (simp add: scenario_defs task_at_def)
  have loc: "is_local app0 (Some add_task)"
    by (simp add: scenario_defs is_local_def)
  have upd: "(publish_event ''add'' hs b)\<lparr>pk_headers := Some hs'\<rparr> = publish_event ''add'' hs' b"
    for hs hs' b
    by (simp add: publish_event_def)
  have inj: "tracer_inject app0 (ContextOf 0) (VDict []) = Inr (VDict [(''span'', VStr ''s'')])"
    by (simp add: app0_def)
  show ?thesis
    using prepublish_postpublish_round_trip [OF reg at loc prepublish_scenario] inj
    unfolding upd
    by (simp add: world0_def add_task_def table_of_def publish_event_def publish_task_id_def
        kw_or_empty_def) blast
qed

section \<open>Failures\<close>

text \<open>
  X7. A failure event that carries no exception of its own but an error-info object
  with one: the structured event logged, and all the handler does, are those of the
  event with that exception passed directly.
\<close>

theorem failure_exception_from_einfo:
  assumes "rk_exception kw = None" and "rk_einfo kw = Some ei" and "ei_exception ei = Some exc"
  shows "error_log kw = error_log (kw\<lparr>rk_exception := Some exc\<rparr>) \<and>
         tag_error self kw w = tag_error self (kw\<lparr>rk_exception := Some exc\<rparr>) w"
proof -
  have eq: "error_log (kw\<lparr>rk_exception := Some exc\<rparr>) = error_log kw"
    using assms by (simp add: error_log_def Let_def)
  have sel: "rk_task_id (kw\<lparr>rk_exception := Some exc\<rparr>) = rk_task_id kw"
    "rk_sender (kw\<lparr>rk_exception := Some exc\<rparr>) = rk_sender kw"
    by simp_all
  have "tag_error self (kw\<lparr>rk_exception := Some exc\<rparr>) w = tag_error self kw w"
    unfolding tag_error_def eq sel by (rule refl)
  then show ?thesis
    using eq by simp
qed

theorem failure_exception_from_einfo_witness:
  "error_log ((run_event 7)\<lparr>rk_einfo := Some \<lparr>ei_exception = Some \<lparr>exc_message = ''boom'',
       exc_class = ''ValueError''\<rparr>, ei_traceback = Some (TbObject [''line 1''])\<rparr>\<rparr>)
     = Inr [(''event'', LStr ''error''), (''message'', LStr ''boom''),
            (''error.object'', LExc (Some \<lparr>exc_message = ''boom'', exc_class = ''ValueError''\<rparr>)),
            (''error.kind'', LStr ''ValueError''), (''stack'', LStr ''line 1'')] \<and>
   error_log ((run_event 7)\<lparr>rk_einfo := Some \<lparr>ei_exception = Some \<lparr>exc_message = ''boom'',
       exc_class = ''ValueError''\<rparr>, ei_traceback = Some (TbObject [''line 1''])\<rparr>\<rparr>)
     = error_log ((run_event 7)\<lparr>rk_einfo := Some \<lparr>ei_exception = Some \<lparr>exc_message = ''boom'',
       exc_class = ''ValueError''\<rparr>, ei_traceback = Some (TbObject [''line 1''])\<rparr>,
       rk_exception := Some \<lparr>exc_message = ''boom'', exc_class = ''ValueError''\<rparr>\<rparr>)"
proof -
  have a: "rk_exception ((run_event 7)\<lparr>rk_einfo := Some ei\<rparr>) = None" for ei
    by (simp add: run_event_def)
  have b: "error_log ((run_event 7)\<lparr>rk_einfo := Some \<lparr>ei_exception = Some \<lparr>exc_message = ''boom'',
       exc_class = ''ValueError''\<rparr>, ei_traceback = Some (TbObject [''line 1''])\<rparr>\<rparr>)
     = Inr [(''event'', LStr ''error''), (''message'', LStr ''boom''),
            (''error.object'', LExc (Some \<lparr>exc_message = ''boom'', exc_class = ''ValueError''\<rparr>)),
            (''error.kind'', LStr ''ValueError''), (''stack'', LStr ''line 1'')]"
    by (simp add: run_event_def error_log_def logged_error_def ERROR_def)
  show ?thesis
    using b failure_exception_from_einfo [OF a, of _ _ "\<lparr>exc_message = ''boom'',
       exc_class = ''ValueError''\<rparr>" app0 world0]
    by simp
qed

end
